theory Spec2Isabelle
  imports Main
begin

section \<open>JavaScript strings and values\<close>

text \<open>
  A JavaScript string is modelled as a \<open>string\<close> holding its UTF-8 bytes, so the
  Japanese keywords and labels of \<^verbatim>\<open>index.tsx\<close> are byte lists. Substring tests on
  well-formed UTF-8 agree with substring tests on code points. The lengths the program
  inspects are lengths of digit-only strings or tests for emptiness, where bytes and
  UTF-16 code units agree.

  \<^verbatim>\<open>toLowerCase\<close> is modelled on the ASCII letters, which is where the keywords of the
  program have letters; \<^verbatim>\<open>trim\<close> and \<^verbatim>\<open>parseInt\<close> strip the white space of JavaScript.

  Numbers are modelled as \<open>int\<close>, and a numeric cell holds an integer. The model is the
  program on safe integers, the integers of magnitude at most \<open>2^53 - 1\<close>: there
  JavaScript's doubles are exact and \<^verbatim>\<open>String\<close> prints every digit. Beyond that range
  JavaScript rounds to a double and prints its shortest digits (in exponent form from
  \<open>10^21\<close> on), while the definitions below go on with exact integers and do not follow
  it. A statement about the arithmetic therefore carries the range as a hypothesis. A cell
  is a text or a number, as the sheet reader delivers them; an empty cell is absent from
  its row.
\<close>

definition isDigit :: "char \<Rightarrow> bool" where
  \<comment> \<open>the regular expression class \<^verbatim>\<open>\d\<close>\<close>
  "isDigit c = (48 \<le> (of_char c :: int) \<and> (of_char c :: int) \<le> 57)"

definition lowerChar :: "char \<Rightarrow> char" where
  "lowerChar c =
     (if 65 \<le> (of_char c :: int) \<and> (of_char c :: int) \<le> 90
      then char_of ((of_char c :: int) + 32) else c)"

definition toLowerCase :: "string \<Rightarrow> string" where
  \<comment> \<open>\<^verbatim>\<open>String.prototype.toLowerCase\<close> on the ASCII letters; every other byte is kept\<close>
  "toLowerCase s = map lowerChar s"

fun str_includes :: "string \<Rightarrow> string \<Rightarrow> bool" where
  \<comment> \<open>\<^verbatim>\<open>s.includes(k)\<close>\<close>
  "str_includes [] k = (k = [])"
| "str_includes (c # cs) k = (take (length k) (c # cs) = k \<or> str_includes cs k)"

definition whiteSpace :: "string list" where
  \<comment> \<open>the UTF-8 encodings of the code points that \<^verbatim>\<open>trim\<close> and \<^verbatim>\<open>parseInt\<close> strip:
      TAB, LF, VT, FF, CR, SP, U+00A0, U+1680, U+2000..U+200A, U+2028, U+2029, U+202F,
      U+205F, U+3000, U+FEFF\<close>
  "whiteSpace =
     [[CHR 0x09], [CHR 0x0A], [CHR 0x0B], [CHR 0x0C], [CHR 0x0D], [CHR 0x20],
      [CHR 0xC2, CHR 0xA0], [CHR 0xE1, CHR 0x9A, CHR 0x80],
      [CHR 0xE2, CHR 0x80, CHR 0x80], [CHR 0xE2, CHR 0x80, CHR 0x81],
      [CHR 0xE2, CHR 0x80, CHR 0x82], [CHR 0xE2, CHR 0x80, CHR 0x83],
      [CHR 0xE2, CHR 0x80, CHR 0x84], [CHR 0xE2, CHR 0x80, CHR 0x85],
      [CHR 0xE2, CHR 0x80, CHR 0x86], [CHR 0xE2, CHR 0x80, CHR 0x87],
      [CHR 0xE2, CHR 0x80, CHR 0x88], [CHR 0xE2, CHR 0x80, CHR 0x89],
      [CHR 0xE2, CHR 0x80, CHR 0x8A], [CHR 0xE2, CHR 0x80, CHR 0xA8],
      [CHR 0xE2, CHR 0x80, CHR 0xA9], [CHR 0xE2, CHR 0x80, CHR 0xAF],
      [CHR 0xE2, CHR 0x81, CHR 0x9F], [CHR 0xE3, CHR 0x80, CHR 0x80],
      [CHR 0xEF, CHR 0xBB, CHR 0xBF]]"

definition startsWithAny :: "string list \<Rightarrow> string \<Rightarrow> string option" where
  \<comment> \<open>the first non-empty pattern of \<open>ps\<close> that \<open>s\<close> starts with\<close>
  "startsWithAny ps s = find (\<lambda>p. p \<noteq> [] \<and> take (length p) s = p) ps"

function stripLeading :: "string list \<Rightarrow> string \<Rightarrow> string" where
  "stripLeading ps s =
     (case startsWithAny ps s of
        None \<Rightarrow> s
      | Some p \<Rightarrow> stripLeading ps (drop (length p) s))"
  by pat_completeness auto
termination
proof (relation "measure (\<lambda>(ps, s). length s)")
  show "wf (measure (\<lambda>(ps, s). length s))" by simp
next
  fix ps :: "string list" and s p :: string
  assume "startsWithAny ps s = Some p"
  then have "p \<noteq> []" and "take (length p) s = p"
    by (auto simp: startsWithAny_def dest: find_Some_iff[THEN iffD1])
  then have "length (drop (length p) s) < length s"
    by (cases s) auto
  then show "((ps, drop (length p) s), (ps, s)) \<in> measure (\<lambda>(ps, s). length s)"
    by simp
qed

definition trimStart :: "string \<Rightarrow> string" where
  "trimStart s = stripLeading whiteSpace s"

definition trimEnd :: "string \<Rightarrow> string" where
  "trimEnd s = rev (stripLeading (map rev whiteSpace) (rev s))"

definition trim :: "string \<Rightarrow> string" where
  \<comment> \<open>\<^verbatim>\<open>String.prototype.trim\<close>\<close>
  "trim s = trimEnd (trimStart s)"

function removeAll :: "string \<Rightarrow> string \<Rightarrow> string" where
  \<comment> \<open>\<^verbatim>\<open>s.replace(/pat/g, '')\<close> for a literal, non-empty pattern: matches are found left
      to right and do not overlap\<close>
  "removeAll pat [] = []"
| "removeAll pat (c # cs) =
     (if pat \<noteq> [] \<and> take (length pat) (c # cs) = pat
      then removeAll pat (drop (length pat) (c # cs))
      else c # removeAll pat cs)"
  by pat_completeness auto
termination
  by (relation "measure (\<lambda>(pat, s). length s)") auto

function showNat :: "int \<Rightarrow> string" where
  \<comment> \<open>the decimal digits of a number that is not negative\<close>
  "showNat n =
     (if n < 10 then [char_of (48 + n)]
      else showNat (n div 10) @ [char_of (48 + n mod 10)])"
  by pat_completeness auto
termination
  by (relation "measure nat") auto

declare showNat.simps [simp del]

definition showInt :: "int \<Rightarrow> string" where
  \<comment> \<open>\<^verbatim>\<open>String(n)\<close> for a safe integer \<open>n\<close>: an optional minus sign and all decimal
      digits. (For a larger number \<^verbatim>\<open>String\<close> prints the shortest digits of the double.)\<close>
  "showInt i = (if i < 0 then CHR ''-'' # showNat (- i) else showNat i)"

definition digitsValue :: "string \<Rightarrow> int" where
  \<comment> \<open>the number a run of decimal digits denotes; \<^verbatim>\<open>parseInt\<close> returns it while it is
      a safe integer (and the nearest double for a larger number)\<close>
  "digitsValue ds = foldl (\<lambda>acc c. 10 * acc + ((of_char c :: int) - 48)) 0 ds"

definition parseInt :: "string \<Rightarrow> int option" where
  \<comment> \<open>\<^verbatim>\<open>parseInt(s, 10)\<close>: leading white space, an optional sign, then the longest run of
      digits; \<open>None\<close> is NaN\<close>
  "parseInt s =
     (let t = trimStart s;
          neg = (t \<noteq> [] \<and> hd t = CHR ''-'');
          u = (if t \<noteq> [] \<and> (hd t = CHR ''-'' \<or> hd t = CHR ''+'') then tl t else t);
          ds = takeWhile isDigit u
      in if ds = [] then None
         else Some (if neg then - digitsValue ds else digitsValue ds))"

datatype cell = CStr string | CNum int

text \<open>
  A property read \<open>row[k]\<close> yields a cell or \<^verbatim>\<open>undefined\<close>; \<open>None\<close> is \<^verbatim>\<open>undefined\<close>.
\<close>

fun truthy :: "cell option \<Rightarrow> bool" where
  "truthy None = False"
| "truthy (Some (CStr s)) = (s \<noteq> [])"
| "truthy (Some (CNum n)) = (n \<noteq> 0)"

fun toStr :: "cell option \<Rightarrow> string" where
  \<comment> \<open>\<^verbatim>\<open>String(v)\<close>\<close>
  "toStr None = ''undefined''"
| "toStr (Some (CStr s)) = s"
| "toStr (Some (CNum n)) = showInt n"

definition orElse :: "cell option \<Rightarrow> string \<Rightarrow> cell option" where
  \<comment> \<open>\<^verbatim>\<open>v || "d"\<close>\<close>
  "orElse v d = (if truthy v then v else Some (CStr d))"

section \<open>Helper functions\<close>

definition formatZip :: "cell option \<Rightarrow> string" where
  "formatZip z =
     (let s = filter isDigit (toStr z)
      in if length s = 7 then take 3 s @ ''-'' @ drop 3 s else toStr z)"

definition formatPhone :: "cell option \<Rightarrow> string" where
  "formatPhone phone = filter isDigit (removeAll ''(+81)'' (toStr phone))"

definition lineTerminators :: "string list" where
  \<comment> \<open>LF, CR, U+2028, U+2029: what \<^verbatim>\<open>.\<close> does not match\<close>
  "lineTerminators =
     [[CHR 0x0A], [CHR 0x0D], [CHR 0xE2, CHR 0x80, CHR 0xA8], [CHR 0xE2, CHR 0x80, CHR 0xA9]]"

definition hasLineTerminator :: "string \<Rightarrow> bool" where
  "hasLineTerminator s = list_ex (str_includes s) lineTerminators"

definition matchPack :: "string \<Rightarrow> (string \<times> string) option" where
  \<comment> \<open>\<^verbatim>\<open>name.match(/^(.*)\*(\d+)$/)\<close>: the two groups, or \<open>None\<close> for no match. The second
      group is the run of digits that ends the name, the star stands right before it,
      and the first group is the rest, which must be free of line terminators.\<close>
  "matchPack name =
     (let ds = rev (takeWhile isDigit (rev name));
          pre = rev (dropWhile isDigit (rev name))
      in if ds \<noteq> [] \<and> pre \<noteq> [] \<and> last pre = CHR ''*'' \<and> \<not> hasLineTerminator (butlast pre)
         then Some (butlast pre, ds) else None)"

definition calculateProduct :: "string \<Rightarrow> int \<Rightarrow> string" where
  \<comment> \<open>the pack size \<^verbatim>\<open>parseInt(match[2], 10)\<close> is the number that the digits of the
      second group denote. The product and its digits are those of JavaScript while the
      pack size, the quantity and the product are safe integers.\<close>
  "calculateProduct name quantity =
     (if name = [] then ''Unknown*'' @ showInt quantity
      else
        (case matchPack name of
           Some (baseName, ds) \<Rightarrow>
             (let packSize = digitsValue ds
              in if quantity = 1 then name
                 else (let total = packSize * quantity in baseName @ ''*'' @ showInt total))
         | None \<Rightarrow> name @ ''*'' @ showInt quantity))"

section \<open>Rows and header detection\<close>

text \<open>
  A row of \<^verbatim>\<open>sheet_to_json(worksheet, {header: 'A'})\<close> is an object keyed by column
  letters. It is modelled by the list of its entries in insertion order, which is the
  order \<^verbatim>\<open>Object.entries\<close> and \<^verbatim>\<open>Object.values\<close> enumerate; an object has
  each key once.
\<close>

type_synonym RawRow = "(string \<times> cell) list"

definition getCell :: "RawRow \<Rightarrow> string \<Rightarrow> cell option" where
  \<comment> \<open>\<^verbatim>\<open>row[k]\<close>\<close>
  "getCell row k = map_of row k"

definition kwDenwa :: string where
  \<comment> \<open>U+96FB U+8A71, "telephone"\<close>
  "kwDenwa = [CHR 0xE9, CHR 0x9B, CHR 0xBB, CHR 0xE8, CHR 0xA9, CHR 0xB1]"

definition kwChumon :: string where
  \<comment> \<open>U+6CE8 U+6587, "order"\<close>
  "kwChumon = [CHR 0xE6, CHR 0xB3, CHR 0xA8, CHR 0xE6, CHR 0x96, CHR 0x87]"

definition kwDenwaBango :: string where
  \<comment> \<open>U+96FB U+8A71 U+756A U+53F7, "telephone number"\<close>
  "kwDenwaBango = kwDenwa @ [CHR 0xE7, CHR 0x95, CHR 0xAA, CHR 0xE5, CHR 0x8F, CHR 0xB7]"

definition kwChumonID :: string where
  \<comment> \<open>U+6CE8 U+6587 followed by the capital letters ID\<close>
  "kwChumonID = kwChumon @ ''ID''"

definition isFixedHeader :: "RawRow \<Rightarrow> bool" where
  \<comment> \<open>the test of the first loop of \<^verbatim>\<open>findHeaderRow\<close>\<close>
  "isFixedHeader row =
     (let valA = toLowerCase (toStr (orElse (getCell row ''A'') []));
          valAW = toLowerCase (toStr (orElse (getCell row ''AW'') []))
      in (str_includes valA ''id'' \<or> str_includes valA kwChumon) \<and>
         (str_includes valAW ''phone'' \<or> str_includes valAW kwDenwa))"

definition headerKeywords :: "string list" where
  \<comment> \<open>the array \<^verbatim>\<open>keywords\<close> of \<^verbatim>\<open>findHeaderRow\<close>\<close>
  "headerKeywords = [kwDenwaBango, ''phone'', ''telephone'', kwChumonID, ''order id'', ''orderid'']"

definition isKeywordHeader :: "RawRow \<Rightarrow> bool" where
  \<comment> \<open>the test of the second loop of \<^verbatim>\<open>findHeaderRow\<close>\<close>
  "isKeywordHeader row =
     (let rowValues = map (\<lambda>(k, v). toLowerCase (toStr (Some v))) row;
          matchCount =
            foldl (\<lambda>acc k. if list_ex (\<lambda>v. str_includes v k) rowValues then acc + 1 else acc)
              (0 :: nat) headerKeywords
      in matchCount \<ge> 2)"

function scanFrom :: "(RawRow \<Rightarrow> bool) \<Rightarrow> RawRow list \<Rightarrow> nat \<Rightarrow> nat option" where
  \<comment> \<open>\<^verbatim>\<open>for (let i = ...; i < Math.min(jsonData.length, 20); i++) if (test) return i\<close>;
      \<open>None\<close> when the loop ends without returning\<close>
  "scanFrom test jsonData i =
     (if i < min (length jsonData) 20
      then (if test (jsonData ! i) then Some i else scanFrom test jsonData (Suc i))
      else None)"
  by pat_completeness auto
termination
  by (relation "measure (\<lambda>(test, jsonData, i). min (length jsonData) 20 - i)") auto

declare scanFrom.simps [simp del]

definition findHeaderRow :: "RawRow list \<Rightarrow> int" where
  "findHeaderRow jsonData =
     (case scanFrom isFixedHeader jsonData 0 of
        Some i \<Rightarrow> int i
      | None \<Rightarrow>
          (case scanFrom isKeywordHeader jsonData 0 of
             Some i \<Rightarrow> int i
           | None \<Rightarrow> - 1))"

section \<open>Column mapping\<close>

datatype field = Phone | Zip | Prefecture | City | Town | Addr1 | Addr2 | Name | OrderId

type_synonym ColumnMap = "field \<Rightarrow> string option"

definition fieldName :: "field \<Rightarrow> string" where
  "fieldName f =
     (case f of Phone \<Rightarrow> ''phone'' | Zip \<Rightarrow> ''zip'' | Prefecture \<Rightarrow> ''prefecture''
      | City \<Rightarrow> ''city'' | Town \<Rightarrow> ''town'' | Addr1 \<Rightarrow> ''addr1'' | Addr2 \<Rightarrow> ''addr2''
      | Name \<Rightarrow> ''name'' | OrderId \<Rightarrow> ''orderId'')"

definition isTikTokFormat :: "RawRow \<Rightarrow> bool" where
  "isTikTokFormat headerRow =
     ((str_includes (toLowerCase (toStr (orElse (getCell headerRow ''A'') []))) ''id'' \<or>
       str_includes (toStr (orElse (getCell headerRow ''A'') [])) kwChumon) \<and>
      (str_includes (toLowerCase (toStr (orElse (getCell headerRow ''AW'') []))) ''phone'' \<or>
       str_includes (toStr (orElse (getCell headerRow ''AW'') [])) kwDenwa))"

definition tikTokColumnMap :: ColumnMap where
  "tikTokColumnMap =
     [OrderId \<mapsto> ''A'', Name \<mapsto> ''AL'', Zip \<mapsto> ''AP'', Prefecture \<mapsto> ''AQ'',
      City \<mapsto> ''AR'', Town \<mapsto> ''AS'', Addr1 \<mapsto> ''AT'', Addr2 \<mapsto> ''AU'', Phone \<mapsto> ''AW'']"

definition targetHeaders :: "(field \<times> string list) list" where
  "targetHeaders =
     [(Phone, [kwDenwaBango, ''telephone'', ''phone'']),
      (Zip, [[CHR 0xE9, CHR 0x83, CHR 0xB5, CHR 0xE4, CHR 0xBE, CHR 0xBF,
              CHR 0xE7, CHR 0x95, CHR 0xAA, CHR 0xE5, CHR 0x8F, CHR 0xB7], ''zip'', ''postal'']),
      (Prefecture, [[CHR 0xE9, CHR 0x83, CHR 0xBD, CHR 0xE9, CHR 0x81, CHR 0x93,
                     CHR 0xE5, CHR 0xBA, CHR 0x9C, CHR 0xE7, CHR 0x9C, CHR 0x8C]]),
      (City, [[CHR 0xE5, CHR 0xB8, CHR 0x82, CHR 0xE5, CHR 0x8C, CHR 0xBA,
               CHR 0xE7, CHR 0x94, CHR 0xBA, CHR 0xE6, CHR 0x9D, CHR 0x91]]),
      (Town, [[CHR 0xE7, CHR 0x94, CHR 0xBA, CHR 0xE5, CHR 0x90, CHR 0x8D]]),
      (Addr1, [[CHR 0xE8, CHR 0xA9, CHR 0xB3, CHR 0xE7, CHR 0xB4, CHR 0xB0,
                CHR 0xE4, CHR 0xBD, CHR 0x8F, CHR 0xE6, CHR 0x89, CHR 0x80, CHR 0x31]]),
      (Addr2, [[CHR 0xE8, CHR 0xA9, CHR 0xB3, CHR 0xE7, CHR 0xB4, CHR 0xB0,
                CHR 0xE4, CHR 0xBD, CHR 0x8F, CHR 0xE6, CHR 0x89, CHR 0x80, CHR 0x32]]),
      (Name, [[CHR 0xE5, CHR 0x8F, CHR 0x97, CHR 0xE5, CHR 0x8F, CHR 0x96,
               CHR 0xE4, CHR 0xBA, CHR 0xBA], ''name'', ''recipient'']),
      (OrderId, [kwChumonID, ''order id'', ''orderid''])]"

definition mapHeaderCell :: "ColumnMap \<Rightarrow> string \<times> cell \<Rightarrow> ColumnMap" where
  \<comment> \<open>the body of \<^verbatim>\<open>Object.entries(headerRow).forEach(([key, value]) => ...)\<close>\<close>
  "mapHeaderCell columnMap kv =
     (let valStr = toLowerCase (trim (toStr (Some (snd kv))))
      in foldl
           (\<lambda>m (fld, kws). if list_ex (\<lambda>k. str_includes valStr k) kws then m(fld \<mapsto> fst kv) else m)
           columnMap targetHeaders)"

definition genericColumnMap :: "RawRow \<Rightarrow> ColumnMap" where
  "genericColumnMap headerRow = foldl mapHeaderCell Map.empty headerRow"

definition buildColumnMap :: "RawRow \<Rightarrow> ColumnMap" where
  "buildColumnMap headerRow =
     (if isTikTokFormat headerRow then tikTokColumnMap else genericColumnMap headerRow)"

definition required :: "field list" where
  "required = [Phone, Zip, Name, OrderId]"

definition missingColumns :: "ColumnMap \<Rightarrow> field list" where
  \<comment> \<open>\<^verbatim>\<open>required.filter(k => !columnMap[k])\<close>: an unset entry or an empty column name\<close>
  "missingColumns columnMap =
     filter (\<lambda>k. case columnMap k of None \<Rightarrow> True | Some c \<Rightarrow> c = []) required"

definition col :: "ColumnMap \<Rightarrow> field \<Rightarrow> string" where
  \<comment> \<open>\<^verbatim>\<open>columnMap.f\<close> used as a property key: an unset entry reads the property
      \<^verbatim>\<open>"undefined"\<close>\<close>
  "col columnMap f = (case columnMap f of None \<Rightarrow> ''undefined'' | Some c \<Rightarrow> c)"

section \<open>Processing the data rows\<close>

record Receiver =
  name :: string
  phone :: string
  zip_r :: string
  address :: string

text \<open>
  \<open>orderIds\<close> is a JavaScript \<^verbatim>\<open>Set\<close>: it enumerates its members in insertion order and
  \<^verbatim>\<open>add\<close> of a member changes nothing. \<open>orderMap\<close> is a \<^verbatim>\<open>Map\<close>, enumerated in the order
  in which its keys were first set.
\<close>

record ProcessedOrder =
  id_key :: string
  orderIds :: "string list"
  receiver :: Receiver
  products :: "string list"

type_synonym OrderMap = "(string \<times> ProcessedOrder) list"

definition setAdd :: "string list \<Rightarrow> string \<Rightarrow> string list" where
  \<comment> \<open>\<^verbatim>\<open>Set.prototype.add\<close>\<close>
  "setAdd s x = (if x \<in> set s then s else s @ [x])"

definition mapHas :: "OrderMap \<Rightarrow> string \<Rightarrow> bool" where
  "mapHas m k = (k \<in> set (map fst m))"

record LoopState =
  orderMap :: OrderMap
  processedLinesCount :: nat

definition fullAddressOf :: "ColumnMap \<Rightarrow> RawRow \<Rightarrow> string" where
  "fullAddressOf columnMap row =
     (let addrParts =
            map (\<lambda>s. trim (toStr s))
              (filter truthy
                 [getCell row (col columnMap Prefecture), getCell row (col columnMap City),
                  getCell row (col columnMap Town), getCell row (col columnMap Addr1)]);
          rawAddr2 = getCell row (col columnMap Addr2);
          addrParts2 =
            (if truthy rawAddr2 \<and> trim (toStr rawAddr2) \<noteq> []
             then addrParts @ [''('' @ trim (toStr rawAddr2) @ '')'']
             else addrParts)
      in concat addrParts2)"

definition mergeKeyOf :: "ColumnMap \<Rightarrow> RawRow \<Rightarrow> string" where
  \<comment> \<open>the template \<^verbatim>\<open>`${cleanPhone}|${cleanZip}|${fullAddress}|${cleanName}`\<close>\<close>
  "mergeKeyOf columnMap row =
     formatPhone (getCell row (col columnMap Phone)) @ ''|'' @
     formatZip (getCell row (col columnMap Zip)) @ ''|'' @
     fullAddressOf columnMap row @ ''|'' @
     trim (toStr (getCell row (col columnMap Name)))"

definition quantityOf :: "RawRow \<Rightarrow> int option" where
  \<comment> \<open>\<^verbatim>\<open>parseInt(row['J'] || "0", 10)\<close>\<close>
  "quantityOf row = parseInt (toStr (orElse (getCell row ''J'') ''0''))"

definition productOf :: "RawRow \<Rightarrow> int \<Rightarrow> string" where
  \<comment> \<open>\<^verbatim>\<open>calculateProduct(String(row['G'] || "").trim(), quantity)\<close>\<close>
  "productOf row quantity = calculateProduct (trim (toStr (orElse (getCell row ''G'') []))) quantity"

definition mergeInto :: "OrderMap \<Rightarrow> ColumnMap \<Rightarrow> RawRow \<Rightarrow> int \<Rightarrow> OrderMap" where
  \<comment> \<open>the body of \<^verbatim>\<open>if (quantity > 0)\<close>\<close>
  "mergeInto m columnMap row quantity =
     (let finalProductString = productOf row quantity;
          cleanOrderId = trim (toStr (getCell row (col columnMap OrderId)));
          mergeKey = mergeKeyOf columnMap row
      in if \<not> mapHas m mergeKey
         then m @ [(mergeKey,
                \<lparr>id_key = mergeKey,
                 orderIds = [cleanOrderId],
                 receiver =
                   \<lparr>name = trim (toStr (getCell row (col columnMap Name))),
                    phone = formatPhone (getCell row (col columnMap Phone)),
                    zip_r = formatZip (getCell row (col columnMap Zip)),
                    address = fullAddressOf columnMap row\<rparr>,
                 products = [finalProductString]\<rparr>)]
         else map (\<lambda>(k, existing).
                if k = mergeKey
                then (k, existing\<lparr>orderIds := setAdd (orderIds existing) cleanOrderId,
                                  products := products existing @ [finalProductString]\<rparr>)
                else (k, existing)) m)"

definition processRow :: "ColumnMap \<Rightarrow> RawRow \<Rightarrow> LoopState \<Rightarrow> RawRow \<Rightarrow> LoopState" where
  \<comment> \<open>one pass of the loop over the data rows; each \<^verbatim>\<open>continue\<close> returns the state\<close>
  "processRow columnMap headerRow st row =
     (let rawOrderId = getCell row (col columnMap OrderId)
      in if \<not> truthy rawOrderId then st
         else if trim (toStr rawOrderId) =
                 trim (toStr (orElse (getCell headerRow (col columnMap OrderId)) [])) then st
         else
           (let cleanPhone = formatPhone (getCell row (col columnMap Phone))
            in if cleanPhone = [] \<or> length cleanPhone < 8 then st
               else if length (trim (toStr rawOrderId)) = 0 then st
               else
                 (let st1 = st\<lparr>processedLinesCount := processedLinesCount st + 1\<rparr>
                  in case quantityOf row of
                       None \<Rightarrow> st1
                     | Some quantity \<Rightarrow>
                         if quantity > 0
                         then st1\<lparr>orderMap := mergeInto (orderMap st1) columnMap row quantity\<rparr>
                         else st1)))"

definition processRows :: "ColumnMap \<Rightarrow> RawRow \<Rightarrow> RawRow list \<Rightarrow> LoopState" where
  \<comment> \<open>the loop \<^verbatim>\<open>for (let i = headerIndex + 1; i < jsonData.length; i++)\<close> over the rows
      after the header\<close>
  "processRows columnMap headerRow dataRows =
     foldl (processRow columnMap headerRow) \<lparr>orderMap = [], processedLinesCount = 0\<rparr> dataRows"

section \<open>Output\<close>

datatype LogType = Info | Merge | Error | Warning

record LogEntry =
  logType :: LogType
  message :: string

datatype ocell = OStr string | ONum int

definition senderName :: string where
  \<comment> \<open>AIRUPA followed by U+7269 U+6D41 U+30BB U+30F3 U+30BF U+30FC\<close>
  "senderName =
     ''AIRUPA'' @
     [CHR 0xE7, CHR 0x89, CHR 0xA9, CHR 0xE6, CHR 0xB5, CHR 0x81, CHR 0xE3, CHR 0x82, CHR 0xBB,
      CHR 0xE3, CHR 0x83, CHR 0xB3, CHR 0xE3, CHR 0x82, CHR 0xBF, CHR 0xE3, CHR 0x83, CHR 0xBC]"

definition senderZip :: string where
  "senderZip = ''455-0065''"

definition senderAddress :: string where
  \<comment> \<open>U+540D U+53E4 U+5C4B U+5E02 U+6E2F U+533A U+672C U+5BAE U+65B0 U+753A followed by 86\<close>
  "senderAddress =
     [CHR 0xE5, CHR 0x90, CHR 0x8D, CHR 0xE5, CHR 0x8F, CHR 0xA4, CHR 0xE5, CHR 0xB1, CHR 0x8B,
      CHR 0xE5, CHR 0xB8, CHR 0x82, CHR 0xE6, CHR 0xB8, CHR 0xAF, CHR 0xE5, CHR 0x8C, CHR 0xBA,
      CHR 0xE6, CHR 0x9C, CHR 0xAC, CHR 0xE5, CHR 0xAE, CHR 0xAE, CHR 0xE6, CHR 0x96, CHR 0xB0,
      CHR 0xE7, CHR 0x94, CHR 0xBA] @ ''86''"

definition deliveryMethod :: int where "deliveryMethod = 9"
definition labelType :: int where "labelType = 1800800001"
definition packetSize :: int where "packetSize = 20"
definition serviceFee :: int where "serviceFee = 0"
definition packingFee :: int where "packingFee = 0"

fun joinWith :: "string \<Rightarrow> string list \<Rightarrow> string" where
  \<comment> \<open>\<^verbatim>\<open>xs.join(sep)\<close>\<close>
  "joinWith sep [] = []"
| "joinWith sep [x] = x"
| "joinWith sep (x # y # ys) = x @ sep @ joinWith sep (y # ys)"

definition rowData :: "nat \<Rightarrow> ProcessedOrder \<Rightarrow> ocell list" where
  \<comment> \<open>the object \<^verbatim>\<open>rowData\<close> with its properties A to V in the order in which
      \<^verbatim>\<open>wsData\<close> lists them\<close>
  "rowData sequence grp =
     [ONum (int sequence), ONum deliveryMethod, ONum labelType, OStr [], OStr [],
      OStr (phone (receiver grp)), OStr (zip_r (receiver grp)), OStr (address (receiver grp)),
      OStr (name (receiver grp)), OStr [], OStr [], OStr [], OStr [],
      OStr senderZip, OStr senderAddress, OStr senderName,
      OStr (joinWith [CHR 0x0A] (products grp)), ONum packetSize, OStr [],
      ONum serviceFee, ONum packingFee, OStr (joinWith [CHR 0x0A] (orderIds grp))]"

record GenState =
  outputRows :: "ocell list list"
  logsToAppend :: "LogEntry list"
  sequence :: nat
  mergeEventCount :: nat

definition mergeLog :: "ProcessedOrder \<Rightarrow> LogEntry" where
  "mergeLog grp =
     \<lparr>logType = Merge,
      message = ''MERGED: '' @ name (receiver grp) @ '' has '' @
                showInt (int (length (orderIds grp))) @ '' orders combined. IDs: '' @
                joinWith '', '' (orderIds grp)\<rparr>"

definition emitGroup :: "GenState \<Rightarrow> string \<times> ProcessedOrder \<Rightarrow> GenState" where
  \<comment> \<open>the body of \<^verbatim>\<open>orderMap.forEach((group) => ...)\<close>\<close>
  "emitGroup g kv =
     (let grp = snd kv;
          g1 = (if length (orderIds grp) > 1
                then g\<lparr>mergeEventCount := mergeEventCount g + 1,
                       logsToAppend := logsToAppend g @ [mergeLog grp]\<rparr>
                else g)
      in g1\<lparr>outputRows := outputRows g1 @ [rowData (sequence g1) grp],
            sequence := sequence g1 + 1\<rparr>)"

definition generateOutput :: "OrderMap \<Rightarrow> GenState" where
  "generateOutput m =
     foldl emitGroup \<lparr>outputRows = [], logsToAppend = [], sequence = 1, mergeEventCount = 0\<rparr> m"

section \<open>The run\<close>

record Stats =
  totalLines :: nat
  validOrders :: nat
  mergedGroups :: nat

text \<open>
  The component's state that \<^verbatim>\<open>processFile\<close> reads and writes. \<open>processedWorkbook\<close> holds
  the sheet's cells \<^verbatim>\<open>wsData\<close>. The button that starts \<^verbatim>\<open>processFile\<close> is rendered only
  while a file is selected and \<open>processedWorkbook\<close> is \<^verbatim>\<open>null\<close>. The flag
  \<^verbatim>\<open>isProcessing\<close> is left out: it is false again whenever \<^verbatim>\<open>processFile\<close> has returned.
  Reading the file into \<^verbatim>\<open>jsonData\<close> and writing the workbook are input and output around
  the function modelled here.
\<close>

record AppState =
  logs :: "LogEntry list"
  processedWorkbook :: "ocell list list option"
  stats :: Stats
  hasMerges :: bool

definition headerRowValues :: "string list" where
  \<comment> \<open>the 22 column titles of the output sheet, in UTF-8\<close>
  "headerRowValues =
     [[CHR 0xE5, CHR 0xBA, CHR 0x8F, CHR 0xE5, CHR 0x8F, CHR 0xB7],
      [CHR 0xE9, CHR 0x85, CHR 0x8D, CHR 0xE9, CHR 0x80, CHR 0x81, CHR 0xE6, CHR 0x96, CHR 0xB9,
       CHR 0xE6, CHR 0xB3, CHR 0x95],
      [CHR 0xE9, CHR 0x80, CHR 0x81, CHR 0xE3, CHR 0x82, CHR 0x8A, CHR 0xE7, CHR 0x8A, CHR 0xB6,
       CHR 0xE7, CHR 0xA8, CHR 0xAE, CHR 0xE9, CHR 0xA1, CHR 0x9E],
      [CHR 0xE4, CHR 0xBC, CHR 0x9D, CHR 0xE7, CHR 0xA5, CHR 0xA8, CHR 0xE7, CHR 0x95, CHR 0xAA,
       CHR 0xE5, CHR 0x8F, CHR 0xB7],
      [CHR 0xE9, CHR 0x80, CHR 0x81, CHR 0xE6, CHR 0x96, CHR 0x99],
      [CHR 0xE9, CHR 0x9B, CHR 0xBB, CHR 0xE8, CHR 0xA9, CHR 0xB1, CHR 0xE7, CHR 0x95, CHR 0xAA,
       CHR 0xE5, CHR 0x8F, CHR 0xB7],
      [CHR 0xE9, CHR 0x83, CHR 0xB5, CHR 0xE4, CHR 0xBE, CHR 0xBF, CHR 0xE7, CHR 0x95, CHR 0xAA,
       CHR 0xE5, CHR 0x8F, CHR 0xB7],
      [CHR 0xE4, CHR 0xBD, CHR 0x8F, CHR 0xE6, CHR 0x89, CHR 0x80],
      [CHR 0xE6, CHR 0xB0, CHR 0x8F, CHR 0xE5, CHR 0x90, CHR 0x8D],
      [CHR 0xE3, CHR 0x81, CHR 0x8A, CHR 0xE5, CHR 0xB1, CHR 0x8A, CHR 0xE3, CHR 0x81, CHR 0x91,
       CHR 0xE5, CHR 0xB8, CHR 0x8C, CHR 0xE6, CHR 0x9C, CHR 0x9B, CHR 0xE6, CHR 0x97, CHR 0xA5],
      [CHR 0xE6, CHR 0x99, CHR 0x82, CHR 0xE9, CHR 0x96, CHR 0x93, CHR 0xE5, CHR 0xB8, CHR 0xAF,
       CHR 0xE6, CHR 0x8C, CHR 0x87, CHR 0xE5, CHR 0xAE, CHR 0x9A],
      [CHR 0xE5, CHR 0x87, CHR 0xBA, CHR 0xE8, CHR 0x8D, CHR 0xB7, CHR 0xE4, CHR 0xBA, CHR 0x88,
       CHR 0xE5, CHR 0xAE, CHR 0x9A, CHR 0xE6, CHR 0x97, CHR 0xA5],
      [CHR 0xE3, CHR 0x81, CHR 0x94, CHR 0xE4, CHR 0xBE, CHR 0x9D, CHR 0xE9, CHR 0xA0, CHR 0xBC,
       CHR 0xE4, CHR 0xB8, CHR 0xBB, CHR 0xE9, CHR 0x9B, CHR 0xBB, CHR 0xE8, CHR 0xA9, CHR 0xB1,
       CHR 0xE7, CHR 0x95, CHR 0xAA, CHR 0xE5, CHR 0x8F, CHR 0xB7],
      [CHR 0xE3, CHR 0x81, CHR 0x94, CHR 0xE4, CHR 0xBE, CHR 0x9D, CHR 0xE9, CHR 0xA0, CHR 0xBC,
       CHR 0xE4, CHR 0xB8, CHR 0xBB, CHR 0xE9, CHR 0x83, CHR 0xB5, CHR 0xE4, CHR 0xBE, CHR 0xBF,
       CHR 0xE7, CHR 0x95, CHR 0xAA, CHR 0xE5, CHR 0x8F, CHR 0xB7],
      [CHR 0xE3, CHR 0x81, CHR 0x94, CHR 0xE4, CHR 0xBE, CHR 0x9D, CHR 0xE9, CHR 0xA0, CHR 0xBC,
       CHR 0xE4, CHR 0xB8, CHR 0xBB, CHR 0xE4, CHR 0xBD, CHR 0x8F, CHR 0xE6, CHR 0x89, CHR 0x80,
       CHR 0x31],
      [CHR 0xE3, CHR 0x81, CHR 0x94, CHR 0xE4, CHR 0xBE, CHR 0x9D, CHR 0xE9, CHR 0xA0, CHR 0xBC,
       CHR 0xE4, CHR 0xB8, CHR 0xBB, CHR 0xE5, CHR 0x90, CHR 0x8D],
      [CHR 0xE5, CHR 0x93, CHR 0x81, CHR 0xE5, CHR 0x90, CHR 0x8D],
      [CHR 0xE3, CHR 0x82, CHR 0x86, CHR 0xE3, CHR 0x81, CHR 0x86, CHR 0xE3, CHR 0x83, CHR 0x91,
       CHR 0xE3, CHR 0x82, CHR 0xB1, CHR 0xE3, CHR 0x83, CHR 0x83, CHR 0xE3, CHR 0x83, CHR 0x88,
       CHR 0xE5, CHR 0xB0, CHR 0x82, CHR 0xE7, CHR 0x94, CHR 0xA8, CHR 0xE3, CHR 0x82, CHR 0xB5,
       CHR 0xE3, CHR 0x82, CHR 0xA4, CHR 0xE3, CHR 0x82, CHR 0xBA, CHR 0xE6, CHR 0xAC, CHR 0x84],
      [CHR 0xE6, CHR 0xB3, CHR 0xA8, CHR 0xE6, CHR 0x84, CHR 0x8F, CHR 0xE5, CHR 0x86, CHR 0x99,
       CHR 0xE7, CHR 0x9C, CHR 0x9F],
      [CHR 0xE4, CHR 0xBB, CHR 0xA3, CHR 0xE5, CHR 0xBC, CHR 0x95, CHR 0xE9, CHR 0x87, CHR 0x91,
       CHR 0xE9, CHR 0xA1, CHR 0x8D],
      [CHR 0xE6, CHR 0xA2, CHR 0xB1, CHR 0xE5, CHR 0x8C, CHR 0x85, CHR 0xE8, CHR 0xB3, CHR 0x87,
       CHR 0xE6, CHR 0x9D, CHR 0x90, CHR 0xE8, CHR 0xB2, CHR 0xBB],
      [CHR 0xE8, CHR 0xA8, CHR 0x98, CHR 0xE4, CHR 0xBA, CHR 0x8B]]"

definition wsData :: "ocell list list \<Rightarrow> ocell list list" where
  \<comment> \<open>three empty rows, the title row, then the output rows\<close>
  "wsData rows = [[], [], [], map OStr headerRowValues] @ rows"

definition warningLog :: "nat \<Rightarrow> nat \<Rightarrow> LogEntry" where
  \<comment> \<open>the message starts with U+26A0 U+FE0F\<close>
  "warningLog processedLines totalGroups =
     \<lparr>logType = Warning,
      message = [CHR 0xE2, CHR 0x9A, CHR 0xA0, CHR 0xEF, CHR 0xB8, CHR 0x8F] @ '' ATTENTION: '' @
                showInt (int processedLines - int totalGroups) @
                '' orders were merged into existing shipments.''\<rparr>"

definition infoLog :: "nat \<Rightarrow> LogEntry" where
  \<comment> \<open>the message starts with U+2705\<close>
  "infoLog processedLines =
     \<lparr>logType = Info,
      message = [CHR 0xE2, CHR 0x9C, CHR 0x85] @ '' '' @ showInt (int processedLines) @
                '' orders processed. No merges required.''\<rparr>"

definition noOrdersLog :: LogEntry where
  "noOrdersLog =
     \<lparr>logType = Error,
      message = ''No valid orders found to export. Please check the file format.''\<rparr>"

definition completeLog :: LogEntry where
  "completeLog = \<lparr>logType = Info, message = ''Processing complete. Ready to download.''\<rparr>"

definition missingMessage :: "field list \<Rightarrow> bool \<Rightarrow> string" where
  "missingMessage missing tikTok =
     ''Missing required columns: '' @ joinWith '', '' (map fieldName missing) @
     ''. Format detected: '' @ (if tikTok then ''Standard TikTok'' else ''Generic'')"

definition tryBlock :: "AppState \<Rightarrow> RawRow list \<Rightarrow> string + AppState" where
  \<comment> \<open>the \<^verbatim>\<open>try\<close> block of \<^verbatim>\<open>processFile\<close> from the point where \<^verbatim>\<open>jsonData\<close> is read;
      \<open>Inl\<close> is the message of a thrown \<^verbatim>\<open>Error\<close>\<close>
  "tryBlock s jsonData =
     (if length jsonData < 2 then Inl ''File appears to be empty or invalid format.''
      else
        (let headerIndex = findHeaderRow jsonData
         in if headerIndex = - 1
            then Inl ''Could not find a valid header row (looking for 'Phone', 'Order ID').''
            else
              (let headerRow = jsonData ! nat headerIndex;
                   columnMap = buildColumnMap headerRow;
                   missing = missingColumns columnMap
               in if length missing > 0
                  then Inl (missingMessage missing (isTikTokFormat headerRow))
                  else
                    (let st = processRows columnMap headerRow (drop (nat headerIndex + 1) jsonData);
                         g = generateOutput (orderMap st);
                         totalGroups = length (outputRows g);
                         isMerged = (processedLinesCount st > totalGroups);
                         s1 = s\<lparr>hasMerges := isMerged,
                                stats := \<lparr>totalLines = processedLinesCount st,
                                          validOrders = processedLinesCount st,
                                          mergedGroups = totalGroups\<rparr>\<rparr>;
                         s2 = (if isMerged
                               then s1\<lparr>logs := [warningLog (processedLinesCount st) totalGroups] @
                                                logsToAppend g @ logs s1\<rparr>
                               else s1\<lparr>logs := [infoLog (processedLinesCount st)] @ logs s1\<rparr>)
                     in if length (outputRows g) = 0
                        then Inr (s2\<lparr>logs := logs s2 @ [noOrdersLog]\<rparr>)
                        else Inr (s2\<lparr>processedWorkbook := Some (wsData (outputRows g)),
                                      logs := logs s2 @ [completeLog]\<rparr>)))))"

definition processFile :: "AppState \<Rightarrow> RawRow list \<Rightarrow> AppState" where
  \<comment> \<open>\<^verbatim>\<open>processFile\<close> after the workbook has been read into \<^verbatim>\<open>jsonData\<close>: the two resets,
      the \<^verbatim>\<open>try\<close> block and the \<^verbatim>\<open>catch\<close> clause\<close>
  "processFile s jsonData =
     (let s0 = s\<lparr>logs := [], hasMerges := False\<rparr>
      in case tryBlock s0 jsonData of
           Inl msg \<Rightarrow>
             s0\<lparr>logs := logs s0 @ [\<lparr>logType = Error, message = ''Processing failed: '' @ msg\<rparr>]\<rparr>
         | Inr s1 \<Rightarrow> s1)"

section \<open>Notions used in the statements\<close>

definition fieldKeywords :: "field \<Rightarrow> string list" where
  \<comment> \<open>the keyword list of a semantic field in \<open>targetHeaders\<close>\<close>
  "fieldKeywords f = (case map_of targetHeaders f of Some kws \<Rightarrow> kws | None \<Rightarrow> [])"

definition headerCellMatches :: "field \<Rightarrow> string \<times> cell \<Rightarrow> bool" where
  \<comment> \<open>the trimmed, lower-cased text of the header cell contains a keyword of the field\<close>
  "headerCellMatches f kv =
     list_ex (\<lambda>k. str_includes (toLowerCase (trim (toStr (Some (snd kv))))) k) (fieldKeywords f)"

definition orderIdBlank :: "ColumnMap \<Rightarrow> RawRow \<Rightarrow> bool" where
  \<comment> \<open>the order-id cell is missing, empty or white space only\<close>
  "orderIdBlank columnMap row =
     (case getCell row (col columnMap OrderId) of
        None \<Rightarrow> True
      | Some c \<Rightarrow> trim (toStr (Some c)) = [])"

definition phoneTooShort :: "ColumnMap \<Rightarrow> RawRow \<Rightarrow> bool" where
  \<comment> \<open>the normalized phone has fewer than 8 digits\<close>
  "phoneTooShort columnMap row = (length (formatPhone (getCell row (col columnMap Phone))) < 8)"

definition quantityNotPositive :: "RawRow \<Rightarrow> bool" where
  \<comment> \<open>the parsed quantity is not greater than 0; a quantity that does not parse (NaN) is
      not greater than 0 either\<close>
  "quantityNotPositive row = (case quantityOf row of None \<Rightarrow> True | Some q \<Rightarrow> q \<le> 0)"

definition repeatsHeader :: "ColumnMap \<Rightarrow> RawRow \<Rightarrow> RawRow \<Rightarrow> bool" where
  \<comment> \<open>the trimmed order id equals the trimmed text of the header's order-id cell\<close>
  "repeatsHeader columnMap headerRow row =
     (trim (toStr (getCell row (col columnMap OrderId))) =
      trim (toStr (orElse (getCell headerRow (col columnMap OrderId)) [])))"

definition counted :: "ColumnMap \<Rightarrow> RawRow \<Rightarrow> RawRow \<Rightarrow> bool" where
  \<comment> \<open>the row passes the first four skip conditions\<close>
  "counted columnMap headerRow row =
     (truthy (getCell row (col columnMap OrderId)) \<and>
      \<not> repeatsHeader columnMap headerRow row \<and>
      \<not> phoneTooShort columnMap row \<and>
      trim (toStr (getCell row (col columnMap OrderId))) \<noteq> [])"

definition validated :: "ColumnMap \<Rightarrow> RawRow \<Rightarrow> RawRow \<Rightarrow> bool" where
  \<comment> \<open>the row passes all five skip conditions\<close>
  "validated columnMap headerRow row =
     (counted columnMap headerRow row \<and> \<not> quantityNotPositive row)"

definition headerOf :: "RawRow list \<Rightarrow> RawRow" where
  \<comment> \<open>\<^verbatim>\<open>jsonData[headerIndex]\<close>\<close>
  "headerOf jsonData = jsonData ! nat (findHeaderRow jsonData)"

definition dataRowsOf :: "RawRow list \<Rightarrow> RawRow list" where
  \<comment> \<open>the rows after the header row\<close>
  "dataRowsOf jsonData = drop (nat (findHeaderRow jsonData) + 1) jsonData"

definition runLoop :: "RawRow list \<Rightarrow> LoopState" where
  \<comment> \<open>the state after the loop over the data rows of a run\<close>
  "runLoop jsonData =
     processRows (buildColumnMap (headerOf jsonData)) (headerOf jsonData) (dataRowsOf jsonData)"

definition safeInteger :: "int \<Rightarrow> bool" where
  \<comment> \<open>\<^verbatim>\<open>Number.isSafeInteger\<close>: the magnitude is at most \<open>2^53 - 1\<close>\<close>
  "safeInteger n = (\<bar>n\<bar> \<le> 9007199254740991)"

definition unresolved :: "ColumnMap \<Rightarrow> field \<Rightarrow> bool" where
  \<comment> \<open>the column map gives the field no column, or the empty column name\<close>
  "unresolved columnMap f = (columnMap f = None \<or> columnMap f = Some [])"

definition fatal :: "RawRow list \<Rightarrow> bool" where
  \<comment> \<open>the four fatal conditions: fewer than 2 rows; no header row; one of the
      semantic columns phone, zip, name and orderId unresolved; no shipment group\<close>
  "fatal jsonData =
     (length jsonData < 2 \<or> findHeaderRow jsonData = - 1 \<or>
      unresolved (buildColumnMap (headerOf jsonData)) Phone \<or>
      unresolved (buildColumnMap (headerOf jsonData)) Zip \<or>
      unresolved (buildColumnMap (headerOf jsonData)) Name \<or>
      unresolved (buildColumnMap (headerOf jsonData)) OrderId \<or>
      length (orderMap (runLoop jsonData)) = 0)"

definition errorCount :: "LogEntry list \<Rightarrow> nat" where
  \<comment> \<open>the number of log entries of type error\<close>
  "errorCount ls = length (filter (\<lambda>e. logType e = Error) ls)"

definition claimedRowCells :: "nat \<Rightarrow> ProcessedOrder \<Rightarrow> ocell list" where
  \<comment> \<open>the cells of an output row as the specification lists them, with three blank cells
      between the name and the sender zip\<close>
  "claimedRowCells n grp =
     [ONum (int n), ONum 9, ONum 1800800001, OStr [], OStr [],
      OStr (phone (receiver grp)), OStr (zip_r (receiver grp)), OStr (address (receiver grp)),
      OStr (name (receiver grp)), OStr [], OStr [], OStr [],
      OStr ''455-0065'', OStr senderAddress, OStr senderName,
      OStr (joinWith [CHR 0x0A] (products grp)), ONum 20, OStr [],
      ONum 0, ONum 0, OStr (joinWith [CHR 0x0A] (orderIds grp))]"

section \<open>Example inputs\<close>

definition exHeader :: RawRow where
  \<comment> \<open>a header row with the fixed-layout signature\<close>
  "exHeader =
     [(''A'', CStr ''Order ID''), (''G'', CStr ''Product''), (''J'', CStr ''Quantity''),
      (''AL'', CStr ''Recipient''), (''AP'', CStr ''Zipcode''), (''AQ'', CStr ''Prefecture''),
      (''AW'', CStr ''Phone'')]"

definition exRow :: "string \<Rightarrow> string \<Rightarrow> cell \<Rightarrow> string \<Rightarrow> string \<Rightarrow> string \<Rightarrow> RawRow" where
  \<comment> \<open>a data row of the fixed layout: order id, product, quantity, recipient, prefecture
      and phone; the zip is the number 1234567\<close>
  "exRow oid pname qty recipient pref ph =
     [(''A'', CStr oid), (''G'', CStr pname), (''J'', qty), (''AL'', CStr recipient),
      (''AP'', CNum 1234567), (''AQ'', CStr pref), (''AW'', CStr ph)]"

definition initState :: AppState where
  \<comment> \<open>the component's state after a file has been selected\<close>
  "initState =
     \<lparr>logs = [], processedWorkbook = None,
      stats = \<lparr>totalLines = 0, validOrders = 0, mergedGroups = 0\<rparr>, hasMerges = False\<rparr>"

section \<open>The product description\<close>

lemma not_isDigit_star: "\<not> isDigit (CHR ''*'')"
  by (simp add: isDigit_def)

text \<open>
  The regular expression \<^verbatim>\<open>/^(.*)\*(\d+)$/\<close> matches exactly the names that split into a
  first group without line terminators, a star and a non-empty run of digits.
\<close>

lemma matchPack_iff:
  "matchPack nm = Some (b, d) \<longleftrightarrow>
     nm = b @ ''*'' @ d \<and> d \<noteq> [] \<and> list_all isDigit d \<and> \<not> hasLineTerminator b"
proof
  assume m: "matchPack nm = Some (b, d)"
  define ds where "ds = rev (takeWhile isDigit (rev nm))"
  define pre where "pre = rev (dropWhile isDigit (rev nm))"
  have split: "nm = pre @ ds"
  proof -
    have "rev (takeWhile isDigit (rev nm) @ dropWhile isDigit (rev nm)) = nm"
      by (simp only: takeWhile_dropWhile_id rev_rev_ident)
    then show ?thesis by (simp only: rev_append ds_def pre_def)
  qed
  from m have c: "ds \<noteq> []" "pre \<noteq> []" "last pre = CHR ''*''" "\<not> hasLineTerminator (butlast pre)"
    and bd: "b = butlast pre" "d = ds"
    by (auto simp: matchPack_def Let_def ds_def pre_def split: if_splits)
  from c have pre: "pre = b @ ''*''"
    using bd append_butlast_last_id[of pre] by simp
  have "list_all isDigit ds"
    by (auto simp: ds_def list_all_iff dest: set_takeWhileD)
  with bd(2) have 2: "list_all isDigit d" by blast
  have 1: "nm = b @ ''*'' @ d"
  proof -
    have "nm = pre @ ds" by (rule split)
    also have "pre = b @ ''*''" by (rule pre)
    also have "ds = d" by (rule bd(2)[symmetric])
    finally show ?thesis by (simp only: append_assoc)
  qed
  from c(1) bd(2) have 3: "d \<noteq> []" by blast
  from c(4) bd(1) have 4: "\<not> hasLineTerminator b" by blast
  from 1 2 3 4 show
    "nm = b @ ''*'' @ d \<and> d \<noteq> [] \<and> list_all isDigit d \<and> \<not> hasLineTerminator b"
    by (intro conjI)
next
  assume a: "nm = b @ ''*'' @ d \<and> d \<noteq> [] \<and> list_all isDigit d \<and> \<not> hasLineTerminator b"
  then have r: "rev nm = rev d @ CHR ''*'' # rev b" by simp
  from a have dig: "\<And>x. x \<in> set (rev d) \<Longrightarrow> isDigit x" by (simp add: list_all_iff)
  have "takeWhile isDigit (rev d @ CHR ''*'' # rev b) =
          rev d @ takeWhile isDigit (CHR ''*'' # rev b)"
    by (rule takeWhile_append2) (rule dig)
  then have t: "takeWhile isDigit (rev nm) = rev d"
    by (simp add: r not_isDigit_star)
  have "dropWhile isDigit (rev d @ CHR ''*'' # rev b) = dropWhile isDigit (CHR ''*'' # rev b)"
    by (rule dropWhile_append2) (rule dig)
  then have dr: "dropWhile isDigit (rev nm) = CHR ''*'' # rev b"
    by (simp add: r not_isDigit_star)
  from a have "d \<noteq> []" and "\<not> hasLineTerminator b" by simp_all
  then show "matchPack nm = Some (b, d)"
    unfolding matchPack_def Let_def t dr by simp
qed

text \<open>
  \<open>showInt\<close> writes a number that is not negative in decimal digits: the digits denote
  the number again.
\<close>

lemma digitsValue_snoc: "digitsValue (ds @ [c]) = 10 * digitsValue ds + (of_char c - 48)"
  by (simp add: digitsValue_def)

lemma showNat_digits:
  "0 \<le> n \<Longrightarrow> showNat n \<noteq> [] \<and> list_all isDigit (showNat n) \<and> digitsValue (showNat n) = n"
proof (induction n rule: showNat.induct)
  case (1 n)
  show ?case
  proof (cases "n < 10")
    case True
    with "1.prems" have m: "(48 + n) mod 256 = 48 + n" by simp
    from True have s: "showNat n = [char_of (48 + n)]" by (subst showNat.simps) simp
    show ?thesis
      unfolding s using True "1.prems" by (simp add: isDigit_def digitsValue_def m)
  next
    case False
    then have s: "showNat n = showNat (n div 10) @ [char_of (48 + n mod 10)]"
      by (subst showNat.simps) simp
    have m: "(48 + n mod 10) mod 256 = 48 + n mod 10"
      by (simp add: mod_pos_pos_trivial)
    from False "1.prems" have "0 \<le> n div 10" by simp
    with "1.IH"[OF False] have ih: "list_all isDigit (showNat (n div 10))"
      "digitsValue (showNat (n div 10)) = n div 10" by simp_all
    have r: "0 \<le> n mod 10" "n mod 10 \<le> 9"
      using pos_mod_bound[of 10 n] by simp_all
    then have c: "isDigit (char_of (48 + n mod 10))"
      by (simp add: isDigit_def m)
    have v: "(of_char (char_of (48 + n mod 10) :: char) :: int) - 48 = n mod 10"
      by (simp add: m)
    show ?thesis
      unfolding s by (simp add: digitsValue_snoc ih c v)
  qed
qed

lemma showInt_digits:
  "0 \<le> n \<Longrightarrow> list_all isDigit (showInt n) \<and> digitsValue (showInt n) = n"
  by (simp add: showInt_def showNat_digits)

lemma showInt_negative: "n < 0 \<Longrightarrow> showInt n = CHR ''-'' # showInt (- n)"
  by (simp add: showInt_def)

text \<open>
  Claim C7, as amended. The quantity is a safe integer. \<open>calculateProduct\<close> returns
  \<open>Unknown*<quantity>\<close> for the empty name. For a name \<open><base>*<packSize>\<close>, where the pack
  size is a non-empty run of digits and the base holds no line terminator, and where the
  pack size and its product with the quantity are safe integers, it returns the name
  unchanged when the quantity is 1 and \<open><base>*<packSize * quantity>\<close> otherwise. For every
  other non-empty name it returns \<open><name>*<quantity>\<close>. The four examples of the
  specification hold.
\<close>

theorem calculateProduct_cases:
  "(safeInteger q \<longrightarrow> calculateProduct [] q = ''Unknown*'' @ showInt q) \<and>
   (nm = b @ ''*'' @ d \<and> d \<noteq> [] \<and> list_all isDigit d \<and> \<not> hasLineTerminator b \<and>
    safeInteger q \<and> safeInteger (digitsValue d) \<and> safeInteger (digitsValue d * q) \<longrightarrow>
      calculateProduct nm q =
        (if q = 1 then nm else b @ ''*'' @ showInt (digitsValue d * q))) \<and>
   (nm \<noteq> [] \<and>
    \<not> (\<exists>b d. nm = b @ ''*'' @ d \<and> d \<noteq> [] \<and> list_all isDigit d \<and> \<not> hasLineTerminator b) \<and>
    safeInteger q \<longrightarrow>
      calculateProduct nm q = nm @ ''*'' @ showInt q) \<and>
   calculateProduct ''Widget*6'' 1 = ''Widget*6'' \<and>
   calculateProduct ''Widget*6'' 2 = ''Widget*12'' \<and>
   calculateProduct ''Widget'' 3 = ''Widget*3'' \<and>
   calculateProduct [] 2 = ''Unknown*2''"
proof (intro conjI impI)
  show "calculateProduct [] q = ''Unknown*'' @ showInt q"
    by (simp add: calculateProduct_def)
next
  assume a: "nm = b @ ''*'' @ d \<and> d \<noteq> [] \<and> list_all isDigit d \<and> \<not> hasLineTerminator b \<and>
    safeInteger q \<and> safeInteger (digitsValue d) \<and> safeInteger (digitsValue d * q)"
  then have "nm = b @ ''*'' @ d \<and> d \<noteq> [] \<and> list_all isDigit d \<and> \<not> hasLineTerminator b"
    by blast
  then have "matchPack nm = Some (b, d)" by (rule matchPack_iff[THEN iffD2])
  moreover from a have "nm \<noteq> []" by simp
  ultimately show "calculateProduct nm q =
        (if q = 1 then nm else b @ ''*'' @ showInt (digitsValue d * q))"
    by (simp add: calculateProduct_def Let_def)
next
  assume a: "nm \<noteq> [] \<and>
    \<not> (\<exists>b d. nm = b @ ''*'' @ d \<and> d \<noteq> [] \<and> list_all isDigit d \<and> \<not> hasLineTerminator b) \<and>
    safeInteger q"
  have "matchPack nm = None"
  proof (cases "matchPack nm")
    case None then show ?thesis .
  next
    case (Some p)
    then have "matchPack nm = Some (fst p, snd p)" by simp
    then have "nm = fst p @ ''*'' @ snd p \<and> snd p \<noteq> [] \<and> list_all isDigit (snd p) \<and> \<not> hasLineTerminator (fst p)"
      by (rule matchPack_iff[THEN iffD1])
    with a show ?thesis by blast
  qed
  with a show "calculateProduct nm q = nm @ ''*'' @ showInt q"
    by (simp add: calculateProduct_def)
qed code_simp+

text \<open>
  The three conditional cases at concrete names and quantities.
\<close>

theorem calculateProduct_cases_witness:
  "safeInteger 3 \<and> safeInteger (digitsValue ''4'') \<and> safeInteger (digitsValue ''4'' * 3) \<and>
   calculateProduct [] 3 = ''Unknown*'' @ showInt 3 \<and>
   calculateProduct ''Box*4'' 3 = ''Box*'' @ showInt (digitsValue ''4'' * 3) \<and>
   calculateProduct ''Box'' 3 = ''Box*'' @ showInt 3"
proof -
  have q: "safeInteger 3" by (simp add: safeInteger_def)
  have p: "safeInteger (digitsValue ''4'')" by code_simp
  have t: "safeInteger (digitsValue ''4'' * 3)" by code_simp
  from calculateProduct_cases[of 3, THEN conjunct1, rule_format, OF q]
  have 1: "calculateProduct [] 3 = ''Unknown*'' @ showInt 3" .
  have "''Box*4'' = ''Box'' @ ''*'' @ ''4'' \<and> ''4'' \<noteq> [] \<and> list_all isDigit ''4'' \<and>
      \<not> hasLineTerminator ''Box''"
    by code_simp
  with q p t have h: "''Box*4'' = ''Box'' @ ''*'' @ ''4'' \<and> ''4'' \<noteq> [] \<and> list_all isDigit ''4'' \<and>
      \<not> hasLineTerminator ''Box'' \<and>
      safeInteger 3 \<and> safeInteger (digitsValue ''4'') \<and> safeInteger (digitsValue ''4'' * 3)"
    by blast
  from calculateProduct_cases[of 3 "''Box*4''" "''Box''" "''4''", THEN conjunct2, THEN conjunct1,
      rule_format, OF h]
  have 2: "calculateProduct ''Box*4'' 3 = ''Box*'' @ showInt (digitsValue ''4'' * 3)" by simp
  have "CHR ''*'' \<notin> set ''Box''" by simp
  then have "\<And>b d. ''Box'' \<noteq> b @ ''*'' @ d"
    by (metis append_Cons in_set_conv_decomp)
  with q have n: "''Box'' \<noteq> [] \<and>
    \<not> (\<exists>b d. ''Box'' = b @ ''*'' @ d \<and> d \<noteq> [] \<and> list_all isDigit d \<and> \<not> hasLineTerminator b) \<and>
    safeInteger 3"
    by simp
  from calculateProduct_cases[of 3 "''Box''", THEN conjunct2, THEN conjunct2, THEN conjunct1,
      rule_format, OF n]
  have 3: "calculateProduct ''Box'' 3 = ''Box*'' @ showInt 3" by simp
  show ?thesis by (intro conjI q p t 1 2 3)
qed

text \<open>
  Claim C7 as stated fails when the base holds a line break. The name made of \<open>a\<close>, a
  line feed and \<open>b*6\<close> ends in a star and an integer, yet \<^verbatim>\<open>.\<close> does not match the
  line feed, so the quantity 2 is appended instead of being multiplied into the pack size.
\<close>

theorem calculateProduct_line_break:
  "calculateProduct (''a'' @ [CHR 0x0A] @ ''b*6'') 2 = ''a'' @ [CHR 0x0A] @ ''b*6*2'' \<and>
   calculateProduct (''a'' @ [CHR 0x0A] @ ''b*6'') 2 \<noteq> ''a'' @ [CHR 0x0A] @ ''b*'' @ showInt (6 * 2)"
  by code_simp

section \<open>Header detection\<close>

text \<open>
  What a scan loop returns: the least index from \<open>i\<close> on, below the number of rows and
  below 20, whose row passes the test.
\<close>

lemma scanFrom_Some_iff:
  "scanFrom t rows i = Some k \<longleftrightarrow>
     i \<le> k \<and> k < min (length rows) 20 \<and> t (rows ! k) \<and> (\<forall>j. i \<le> j \<and> j < k \<longrightarrow> \<not> t (rows ! j))"
proof (induction t rows i rule: scanFrom.induct)
  case (1 t rows i)
  show ?case
  proof (cases "i < min (length rows) 20")
    case False
    then show ?thesis by (subst scanFrom.simps) auto
  next
    case inb: True
    show ?thesis
    proof (cases "t (rows ! i)")
      case True
      have "scanFrom t rows i = Some i" using inb True by (subst scanFrom.simps) simp
      moreover have "(i \<le> k \<and> k < min (length rows) 20 \<and> t (rows ! k) \<and>
          (\<forall>j. i \<le> j \<and> j < k \<longrightarrow> \<not> t (rows ! j))) \<longleftrightarrow> k = i"
      proof
        assume a: "i \<le> k \<and> k < min (length rows) 20 \<and> t (rows ! k) \<and>
          (\<forall>j. i \<le> j \<and> j < k \<longrightarrow> \<not> t (rows ! j))"
        show "k = i"
        proof (rule ccontr)
          assume "k \<noteq> i"
          with a have "i \<le> i \<and> i < k" by simp
          with a have "\<not> t (rows ! i)" by blast
          with True show False by simp
        qed
      next
        assume "k = i"
        with inb True show "i \<le> k \<and> k < min (length rows) 20 \<and> t (rows ! k) \<and>
          (\<forall>j. i \<le> j \<and> j < k \<longrightarrow> \<not> t (rows ! j))" by auto
      qed
      ultimately show ?thesis by auto
    next
      case False
      have "scanFrom t rows i = scanFrom t rows (Suc i)"
        using inb False by (subst scanFrom.simps) simp
      moreover have "(i \<le> k \<and> (\<forall>j. i \<le> j \<and> j < k \<longrightarrow> \<not> t (rows ! j)) \<and> t (rows ! k)) \<longleftrightarrow>
          (Suc i \<le> k \<and> (\<forall>j. Suc i \<le> j \<and> j < k \<longrightarrow> \<not> t (rows ! j)) \<and> t (rows ! k))"
        using False by (metis Suc_leD Suc_le_eq le_neq_implies_less not_less_eq_eq)
      ultimately show ?thesis using "1.IH"[OF inb False] by auto
    qed
  qed
qed

lemma scanFrom_None_iff:
  "scanFrom t rows i = None \<longleftrightarrow> (\<forall>j. i \<le> j \<and> j < min (length rows) 20 \<longrightarrow> \<not> t (rows ! j))"
proof (induction t rows i rule: scanFrom.induct)
  case (1 t rows i)
  show ?case
  proof (cases "i < min (length rows) 20")
    case False
    then show ?thesis by (subst scanFrom.simps) auto
  next
    case inb: True
    show ?thesis
    proof (cases "t (rows ! i)")
      case True
      have "scanFrom t rows i = Some i" using inb True by (subst scanFrom.simps) simp
      then show ?thesis using inb True by auto
    next
      case False
      have "scanFrom t rows i = scanFrom t rows (Suc i)"
        using inb False by (subst scanFrom.simps) simp
      moreover have "(\<forall>j. i \<le> j \<and> j < min (length rows) 20 \<longrightarrow> \<not> t (rows ! j)) \<longleftrightarrow>
         (\<forall>j. Suc i \<le> j \<and> j < min (length rows) 20 \<longrightarrow> \<not> t (rows ! j))"
        using False by (metis Suc_leD Suc_le_eq le_neq_implies_less)
      ultimately show ?thesis using "1.IH"[OF inb False] by simp
    qed
  qed
qed

lemma scanFrom_take: "scanFrom t (take 20 rows) i = scanFrom t rows i"
proof (cases "scanFrom t rows i")
  case None
  then have "\<forall>j. i \<le> j \<and> j < min (length rows) 20 \<longrightarrow> \<not> t (rows ! j)"
    by (rule scanFrom_None_iff[THEN iffD1])
  then have "\<forall>j. i \<le> j \<and> j < min (length (take 20 rows)) 20 \<longrightarrow> \<not> t (take 20 rows ! j)"
    by simp
  then have "scanFrom t (take 20 rows) i = None" by (rule scanFrom_None_iff[THEN iffD2])
  with None show ?thesis by simp
next
  case (Some k)
  then have "i \<le> k \<and> k < min (length rows) 20 \<and> t (rows ! k) \<and> (\<forall>j. i \<le> j \<and> j < k \<longrightarrow> \<not> t (rows ! j))"
    by (rule scanFrom_Some_iff[THEN iffD1])
  then have "i \<le> k \<and> k < min (length (take 20 rows)) 20 \<and> t (take 20 rows ! k) \<and>
      (\<forall>j. i \<le> j \<and> j < k \<longrightarrow> \<not> t (take 20 rows ! j))"
    by auto
  then have "scanFrom t (take 20 rows) i = Some k" by (rule scanFrom_Some_iff[THEN iffD2])
  with Some show ?thesis by simp
qed

text \<open>
  Claim C5. \<open>findHeaderRow\<close> reads only the first 20 rows. If some row among them has the
  fixed-layout signature, the least such index is returned, whatever rows pass the
  keyword test and wherever they stand. If none has the signature, the least index among
  them whose row passes the keyword test is returned. If no row passes either test, the
  result is \<open>-1\<close>.
\<close>

theorem findHeaderRow_priority:
  "findHeaderRow rows = findHeaderRow (take 20 rows) \<and>
   (\<forall>i. i < min (length rows) 20 \<and> isFixedHeader (rows ! i) \<and>
        (\<forall>j. j < i \<longrightarrow> \<not> isFixedHeader (rows ! j)) \<longrightarrow>
        findHeaderRow rows = int i) \<and>
   (\<forall>i. (\<forall>j. j < min (length rows) 20 \<longrightarrow> \<not> isFixedHeader (rows ! j)) \<and>
        i < min (length rows) 20 \<and> isKeywordHeader (rows ! i) \<and>
        (\<forall>j. j < i \<longrightarrow> \<not> isKeywordHeader (rows ! j)) \<longrightarrow>
        findHeaderRow rows = int i) \<and>
   ((\<forall>j. j < min (length rows) 20 \<longrightarrow>
         \<not> isFixedHeader (rows ! j) \<and> \<not> isKeywordHeader (rows ! j)) \<longrightarrow>
        findHeaderRow rows = - 1)"
proof (intro conjI allI impI)
  show "findHeaderRow rows = findHeaderRow (take 20 rows)"
    by (simp only: findHeaderRow_def scanFrom_take)
next
  fix i
  assume "i < min (length rows) 20 \<and> isFixedHeader (rows ! i) \<and>
        (\<forall>j. j < i \<longrightarrow> \<not> isFixedHeader (rows ! j))"
  then have "scanFrom isFixedHeader rows 0 = Some i"
    by (simp add: scanFrom_Some_iff)
  then show "findHeaderRow rows = int i" by (simp add: findHeaderRow_def)
next
  fix i
  assume a: "(\<forall>j. j < min (length rows) 20 \<longrightarrow> \<not> isFixedHeader (rows ! j)) \<and>
        i < min (length rows) 20 \<and> isKeywordHeader (rows ! i) \<and>
        (\<forall>j. j < i \<longrightarrow> \<not> isKeywordHeader (rows ! j))"
  then have "scanFrom isFixedHeader rows 0 = None" by (simp add: scanFrom_None_iff)
  moreover from a have "scanFrom isKeywordHeader rows 0 = Some i" by (simp add: scanFrom_Some_iff)
  ultimately show "findHeaderRow rows = int i" by (simp add: findHeaderRow_def)
next
  assume a: "\<forall>j. j < min (length rows) 20 \<longrightarrow>
         \<not> isFixedHeader (rows ! j) \<and> \<not> isKeywordHeader (rows ! j)"
  then have "scanFrom isFixedHeader rows 0 = None" by (simp add: scanFrom_None_iff)
  moreover from a have "scanFrom isKeywordHeader rows 0 = None" by (simp add: scanFrom_None_iff)
  ultimately show "findHeaderRow rows = - 1" by (simp add: findHeaderRow_def)
qed


text \<open>
  Three inputs of two rows. In the first, row 0 passes the keyword test and row 1 has the
  fixed-layout signature: the result is 1. In the second only row 0 passes the keyword
  test, in the third no row passes a test.
\<close>

theorem findHeaderRow_priority_witness:
  "findHeaderRow [[(''B'', CStr ''Phone / Order ID'')],
                  [(''A'', CStr ''Order ID''), (''AW'', CStr ''Phone'')]] = 1 \<and>
   isKeywordHeader [(''B'', CStr ''Phone / Order ID'')] \<and>
   findHeaderRow [[(''B'', CStr ''Phone / Order ID'')], [(''A'', CStr ''x'')]] = 0 \<and>
   findHeaderRow [[(''A'', CStr ''x'')], [(''A'', CStr ''y'')]] = - 1"
proof (intro conjI)
  have k0: "isKeywordHeader [(''B'', CStr ''Phone / Order ID'')]" by code_simp
  have f0: "\<not> isFixedHeader [(''B'', CStr ''Phone / Order ID'')]" by code_simp
  have f1: "isFixedHeader [(''A'', CStr ''Order ID''), (''AW'', CStr ''Phone'')]" by code_simp
  have fx: "\<not> isFixedHeader [(''A'', CStr ''x'')]" by code_simp
  have fy: "\<not> isFixedHeader [(''A'', CStr ''y'')]" by code_simp
  have kx: "\<not> isKeywordHeader [(''A'', CStr ''x'')]" by code_simp
  have ky: "\<not> isKeywordHeader [(''A'', CStr ''y'')]" by code_simp
  show "isKeywordHeader [(''B'', CStr ''Phone / Order ID'')]" by (rule k0)
  let ?A = "[[(''B'', CStr ''Phone / Order ID'')],
             [(''A'', CStr ''Order ID''), (''AW'', CStr ''Phone'')]]"
  have "1 < min (length ?A) 20 \<and> isFixedHeader (?A ! 1) \<and>
        (\<forall>j. j < 1 \<longrightarrow> \<not> isFixedHeader (?A ! j))"
    using f0 f1 by simp
  from findHeaderRow_priority[of ?A, THEN conjunct2, THEN conjunct1, rule_format, OF this]
  show "findHeaderRow ?A = 1" by simp
  let ?B = "[[(''B'', CStr ''Phone / Order ID'')], [(''A'', CStr ''x'')]]"
  have "(\<forall>j. j < min (length ?B) 20 \<longrightarrow> \<not> isFixedHeader (?B ! j)) \<and>
        0 < min (length ?B) 20 \<and> isKeywordHeader (?B ! 0) \<and>
        (\<forall>j. j < 0 \<longrightarrow> \<not> isKeywordHeader (?B ! j))"
    using f0 fx k0 by (auto simp: less_Suc_eq numeral_2_eq_2)
  from findHeaderRow_priority[of ?B, THEN conjunct2, THEN conjunct2, THEN conjunct1,
      rule_format, OF this]
  show "findHeaderRow ?B = 0" by simp
  let ?C = "[[(''A'', CStr ''x'')], [(''A'', CStr ''y'')]]"
  have "\<forall>j. j < min (length ?C) 20 \<longrightarrow>
         \<not> isFixedHeader (?C ! j) \<and> \<not> isKeywordHeader (?C ! j)"
    using fx fy kx ky by (auto simp: less_Suc_eq numeral_2_eq_2)
  from findHeaderRow_priority[of ?C, THEN conjunct2, THEN conjunct2, THEN conjunct2,
      THEN mp, OF this]
  show "findHeaderRow ?C = - 1" by simp
qed

section \<open>Generic column mapping\<close>

lemma foldl_assign:
  "distinct (map fst ths) \<Longrightarrow>
   foldl (\<lambda>m (fld, kws). if P kws then m(fld \<mapsto> k) else m) cm ths f =
     (case map_of ths f of
        Some kws \<Rightarrow> if P kws then Some k else cm f
      | None \<Rightarrow> cm f)"
proof (induction ths arbitrary: cm)
  case Nil
  show ?case by simp
next
  case (Cons a ths)
  obtain fld kws where a: "a = (fld, kws)" by (cases a)
  from Cons.prems have d: "distinct (map fst ths)" and n: "fld \<notin> fst ` set ths"
    by (simp_all add: a)
  from n have none: "map_of ths fld = None" by (simp add: map_of_eq_None_iff)
  show ?case
  proof (cases "f = fld")
    case True
    then show ?thesis using Cons.IH[OF d] none by (simp add: a)
  next
    case False
    then show ?thesis using Cons.IH[OF d] by (simp add: a split: option.splits)
  qed
qed

lemma distinct_targetHeaders: "distinct (map fst targetHeaders)"
  by (simp add: targetHeaders_def)

lemma mapHeaderCell_field:
  "mapHeaderCell cm kv f = (if headerCellMatches f kv then Some (fst kv) else cm f)"
  unfolding mapHeaderCell_def Let_def headerCellMatches_def fieldKeywords_def
  by (simp add: foldl_assign[OF distinct_targetHeaders] split: option.splits)

text \<open>
  Claim C6. Under the generic layout a field is mapped to the column of the last header
  cell, in scan order, whose trimmed and lower-cased text contains one of the field's
  keywords, and is left unmapped when no header cell does.
\<close>

theorem genericColumnMap_last_match:
  "genericColumnMap headerRow f =
     (case filter (headerCellMatches f) headerRow of
        [] \<Rightarrow> None
      | m # ms \<Rightarrow> Some (fst (last (m # ms))))"
proof (induction headerRow rule: rev_induct)
  case Nil
  show ?case by (simp add: genericColumnMap_def)
next
  case (snoc kv cells)
  have step: "genericColumnMap (cells @ [kv]) f =
      (if headerCellMatches f kv then Some (fst kv) else genericColumnMap cells f)"
    by (simp add: genericColumnMap_def mapHeaderCell_field)
  show ?case
  proof (cases "headerCellMatches f kv")
    case True
    then have fl: "filter (headerCellMatches f) (cells @ [kv]) =
        filter (headerCellMatches f) cells @ [kv]"
      by simp
    obtain m ms where ne: "filter (headerCellMatches f) cells @ [kv] = m # ms"
      by (cases "filter (headerCellMatches f) cells @ [kv]") simp_all
    have "last (m # ms) = kv"
      unfolding ne[symmetric] by simp
    with True show ?thesis
      unfolding step fl ne by simp
  next
    case False
    then show ?thesis by (simp add: step snoc.IH)
  qed
qed

text \<open>
  Two header cells match the field \<open>phone\<close>; the later one wins.
\<close>

lemma genericColumnMap_example:
  "genericColumnMap
     [(''B'', CStr ''Phone''), (''C'', CStr '' Recipient Name''), (''D'', CStr ''Telephone'')] Phone
   = Some ''D''"
  by code_simp

section \<open>The output rows\<close>

lemma emitGroup_fields:
  "outputRows (emitGroup g kv) = outputRows g @ [rowData (sequence g) (snd kv)]"
  "sequence (emitGroup g kv) = sequence g + 1"
  by (simp_all add: emitGroup_def Let_def)

lemma foldl_emitGroup_sequence:
  "sequence (foldl emitGroup g m) = sequence g + length m"
  by (induction m rule: rev_induct) (simp_all add: emitGroup_fields)

lemma foldl_emitGroup_rows:
  "outputRows (foldl emitGroup g m) =
     outputRows g @ map (\<lambda>i. rowData (sequence g + i) (snd (m ! i))) [0..<length m]"
proof (induction m rule: rev_induct)
  case Nil
  show ?case by simp
next
  case (snoc kv m)
  have "map (\<lambda>i. rowData (sequence g + i) (snd ((m @ [kv]) ! i))) [0..<length m] =
        map (\<lambda>i. rowData (sequence g + i) (snd (m ! i))) [0..<length m]"
    by (rule map_cong) (simp_all add: nth_append)
  then show ?case
    by (simp add: emitGroup_fields snoc.IH foldl_emitGroup_sequence)
qed

lemma generateOutput_rows:
  "outputRows (generateOutput m) = map (\<lambda>i. rowData (Suc i) (snd (m ! i))) [0..<length m]"
  by (simp add: generateOutput_def foldl_emitGroup_rows)

text \<open>
  Claim C2, as amended. There is one output row per shipment group, in the order of the
  groups, and its 22 cells are: the sequence number, counted from 1; 9; 1800800001; two
  blank cells; the group's phone, zip, address and name; four blank cells; the sender zip
  455-0065; the sender address; the sender name; the products joined by line feeds; 20; a
  blank cell; 0; 0; the order ids joined by line feeds.
\<close>

theorem output_row_cells:
  "length (outputRows (generateOutput m)) = length m \<and>
   (\<forall>i. i < length m \<longrightarrow>
      length (outputRows (generateOutput m) ! i) = 22 \<and>
      outputRows (generateOutput m) ! i =
        [ONum (int i + 1), ONum 9, ONum 1800800001, OStr [], OStr [],
         OStr (phone (receiver (snd (m ! i)))), OStr (zip_r (receiver (snd (m ! i)))),
         OStr (address (receiver (snd (m ! i)))), OStr (name (receiver (snd (m ! i)))),
         OStr [], OStr [], OStr [], OStr [],
         OStr ''455-0065'', OStr senderAddress, OStr senderName,
         OStr (joinWith [CHR 0x0A] (products (snd (m ! i)))), ONum 20, OStr [],
         ONum 0, ONum 0, OStr (joinWith [CHR 0x0A] (orderIds (snd (m ! i))))])"
  by (simp add: generateOutput_rows rowData_def deliveryMethod_def labelType_def
      senderZip_def packetSize_def serviceFee_def packingFee_def)


text \<open>
  The theorem at an order map holding one group.
\<close>

theorem output_row_cells_witness:
  "outputRows (generateOutput
     [(''k'', \<lparr>id_key = ''k'', orderIds = [''1001'', ''1002''],
             receiver = \<lparr>name = ''Tanaka'', phone = ''09012345678'', zip_r = ''123-4567'',
                         address = ''Tokyo''\<rparr>,
             products = [''Box*4'', ''Box*8'']\<rparr>)]) ! 0 =
     [ONum 1, ONum 9, ONum 1800800001, OStr [], OStr [],
      OStr ''09012345678'', OStr ''123-4567'', OStr ''Tokyo'', OStr ''Tanaka'',
      OStr [], OStr [], OStr [], OStr [],
      OStr ''455-0065'', OStr senderAddress, OStr senderName,
      OStr (''Box*4'' @ [CHR 0x0A] @ ''Box*8''), ONum 20, OStr [],
      ONum 0, ONum 0, OStr (''1001'' @ [CHR 0x0A] @ ''1002'')]"
proof -
  let ?m = "[(''k'', \<lparr>id_key = ''k'', orderIds = [''1001'', ''1002''],
             receiver = \<lparr>name = ''Tanaka'', phone = ''09012345678'', zip_r = ''123-4567'',
                         address = ''Tokyo''\<rparr>,
             products = [''Box*4'', ''Box*8'']\<rparr>)]"
  have "(0::nat) < length ?m" by simp
  from output_row_cells[of ?m, THEN conjunct2, rule_format, OF this, THEN conjunct2]
  show ?thesis by simp
qed

text \<open>
  Claim C2 as stated lists three blank cells between the name and the sender zip, which
  makes 21 cells. In the row that a run emits for one order, the cells 10 to 13 are blank
  and the sender zip is cell 14.
\<close>

theorem output_row_four_blanks:
  "(case processedWorkbook
           (processFile initState
              [exHeader, exRow ''1001'' ''Box*4'' (CNum 1) ''Tanaka'' ''Tokyo'' ''09012345678''])
    of None \<Rightarrow> False
     | Some ws \<Rightarrow>
         length (ws ! 4) = 22 \<and>
         ws ! 4 ! 9 = OStr [] \<and> ws ! 4 ! 10 = OStr [] \<and> ws ! 4 ! 11 = OStr [] \<and>
         ws ! 4 ! 12 = OStr [] \<and> ws ! 4 ! 13 = OStr ''455-0065'' \<and>
         ws ! 4 \<noteq>
           claimedRowCells 1
             \<lparr>id_key = ''09012345678|123-4567|Tokyo|Tanaka'', orderIds = [''1001''],
              receiver = \<lparr>name = ''Tanaka'', phone = ''09012345678'', zip_r = ''123-4567'',
                          address = ''Tokyo''\<rparr>,
              products = [''Box*4'']\<rparr> \<and>
         claimedRowCells 1
             \<lparr>id_key = ''09012345678|123-4567|Tokyo|Tanaka'', orderIds = [''1001''],
              receiver = \<lparr>name = ''Tanaka'', phone = ''09012345678'', zip_r = ''123-4567'',
                          address = ''Tokyo''\<rparr>,
              products = [''Box*4'']\<rparr> ! 12 = OStr ''455-0065'')"
  by code_simp

lemma example_group:
  "orderMap (processRows tikTokColumnMap exHeader
      [exRow ''1001'' ''Box*4'' (CNum 1) ''Tanaka'' ''Tokyo'' ''09012345678'']) =
   [(''09012345678|123-4567|Tokyo|Tanaka'',
     \<lparr>id_key = ''09012345678|123-4567|Tokyo|Tanaka'', orderIds = [''1001''],
              receiver = \<lparr>name = ''Tanaka'', phone = ''09012345678'', zip_r = ''123-4567'',
                          address = ''Tokyo''\<rparr>,
              products = [''Box*4'']\<rparr>)]"
  by code_simp

section \<open>The loop over the data rows\<close>

text \<open>
  One pass of the loop: a row that passes the first four skip conditions is counted, and
  a row that passes all five is merged into the order map.
\<close>

lemma orderMap_processRow:
  "orderMap (processRow cm hdr st row) =
     (if validated cm hdr row then mergeInto (orderMap st) cm row (the (quantityOf row))
      else orderMap st)"
  by (simp add: processRow_def validated_def counted_def repeatsHeader_def phoneTooShort_def
      quantityNotPositive_def Let_def split: option.splits)

lemma count_processRow:
  "processedLinesCount (processRow cm hdr st row) =
     (if counted cm hdr row then processedLinesCount st + 1 else processedLinesCount st)"
  by (simp add: processRow_def counted_def repeatsHeader_def phoneTooShort_def
      Let_def split: option.splits)

lemma skip_not_validated:
  "quantityNotPositive row \<or> phoneTooShort cm row \<or> orderIdBlank cm row \<Longrightarrow>
   \<not> validated cm hdr row"
  by (auto simp: validated_def counted_def orderIdBlank_def split: option.splits)

lemma foldl_processRow_orderMap_cong:
  "orderMap st = orderMap st' \<Longrightarrow>
   orderMap (foldl (processRow cm hdr) st rows) = orderMap (foldl (processRow cm hdr) st' rows)"
proof (induction rows arbitrary: st st')
  case Nil
  then show ?case by simp
next
  case (Cons r rows)
  from Cons.prems have "orderMap (processRow cm hdr st r) = orderMap (processRow cm hdr st' r)"
    by (simp only: orderMap_processRow)
  then have "orderMap (foldl (processRow cm hdr) (processRow cm hdr st r) rows) =
      orderMap (foldl (processRow cm hdr) (processRow cm hdr st' r) rows)"
    by (rule Cons.IH)
  then show ?case by (simp only: foldl_Cons)
qed

text \<open>
  Claim C8. A data row whose parsed quantity is not greater than 0, or whose normalized
  phone has fewer than 8 digits, or whose order-id cell is missing, empty or white space
  only, leaves the shipment groups as they are; wherever it stands among the data rows,
  the groups after the loop are those of the data rows without it.
\<close>

theorem skipped_row_never_contributes:
  assumes "quantityNotPositive row \<or> phoneTooShort cm row \<or> orderIdBlank cm row"
  shows "orderMap (processRow cm hdr st row) = orderMap st \<and>
         orderMap (processRows cm hdr (before @ row # after)) =
         orderMap (processRows cm hdr (before @ after))"
proof
  from assms have nv: "\<not> validated cm hdr row" by (rule skip_not_validated)
  then show "orderMap (processRow cm hdr st row) = orderMap st"
    by (simp add: orderMap_processRow)
  from nv have "orderMap (processRow cm hdr (foldl (processRow cm hdr)
          \<lparr>orderMap = [], processedLinesCount = 0\<rparr> before) row) =
        orderMap (foldl (processRow cm hdr) \<lparr>orderMap = [], processedLinesCount = 0\<rparr> before)"
    by (simp add: orderMap_processRow)
  then show "orderMap (processRows cm hdr (before @ row # after)) =
        orderMap (processRows cm hdr (before @ after))"
    unfolding processRows_def foldl_append foldl_Cons
    by (rule foldl_processRow_orderMap_cong)
qed

text \<open>
  Three rows that are skipped, one for each condition, between two rows for the same
  recipient: the groups are those of the two rows alone.
\<close>

theorem skipped_row_never_contributes_witness:
  "quantityNotPositive (exRow ''1002'' ''Box*4'' (CNum 0) ''Sato'' ''Osaka'' ''09012345678'') \<and>
   orderMap (processRows tikTokColumnMap exHeader
     [exRow ''1001'' ''Box*4'' (CNum 1) ''Tanaka'' ''Tokyo'' ''09012345678'',
      exRow ''1002'' ''Box*4'' (CNum 0) ''Sato'' ''Osaka'' ''09012345678'',
      exRow ''1003'' ''Box*4'' (CNum 2) ''Tanaka'' ''Tokyo'' ''09012345678'']) =
   orderMap (processRows tikTokColumnMap exHeader
     [exRow ''1001'' ''Box*4'' (CNum 1) ''Tanaka'' ''Tokyo'' ''09012345678'',
      exRow ''1003'' ''Box*4'' (CNum 2) ''Tanaka'' ''Tokyo'' ''09012345678'']) \<and>
   phoneTooShort tikTokColumnMap (exRow ''1002'' ''Box*4'' (CNum 1) ''Sato'' ''Osaka'' ''0901234'') \<and>
   orderMap (processRow tikTokColumnMap exHeader \<lparr>orderMap = [], processedLinesCount = 0\<rparr>
     (exRow ''1002'' ''Box*4'' (CNum 1) ''Sato'' ''Osaka'' ''0901234'')) = [] \<and>
   orderIdBlank tikTokColumnMap (exRow ''  '' ''Box*4'' (CNum 1) ''Sato'' ''Osaka'' ''09012345678'') \<and>
   orderMap (processRow tikTokColumnMap exHeader \<lparr>orderMap = [], processedLinesCount = 0\<rparr>
     (exRow ''  '' ''Box*4'' (CNum 1) ''Sato'' ''Osaka'' ''09012345678'')) = []"
proof -
  have q: "quantityNotPositive (exRow ''1002'' ''Box*4'' (CNum 0) ''Sato'' ''Osaka'' ''09012345678'')"
    by code_simp
  have p: "phoneTooShort tikTokColumnMap (exRow ''1002'' ''Box*4'' (CNum 1) ''Sato'' ''Osaka'' ''0901234'')"
    by code_simp
  have b: "orderIdBlank tikTokColumnMap (exRow ''  '' ''Box*4'' (CNum 1) ''Sato'' ''Osaka'' ''09012345678'')"
    by code_simp
  note t = skipped_row_never_contributes
  from q have 1: "orderMap (processRows tikTokColumnMap exHeader
     ([exRow ''1001'' ''Box*4'' (CNum 1) ''Tanaka'' ''Tokyo'' ''09012345678''] @
      exRow ''1002'' ''Box*4'' (CNum 0) ''Sato'' ''Osaka'' ''09012345678'' #
      [exRow ''1003'' ''Box*4'' (CNum 2) ''Tanaka'' ''Tokyo'' ''09012345678''])) =
   orderMap (processRows tikTokColumnMap exHeader
     ([exRow ''1001'' ''Box*4'' (CNum 1) ''Tanaka'' ''Tokyo'' ''09012345678''] @
      [exRow ''1003'' ''Box*4'' (CNum 2) ''Tanaka'' ''Tokyo'' ''09012345678'']))"
    by (rule t[THEN conjunct2, OF disjI1])
  from p have 2: "orderMap (processRow tikTokColumnMap exHeader \<lparr>orderMap = [], processedLinesCount = 0\<rparr>
     (exRow ''1002'' ''Box*4'' (CNum 1) ''Sato'' ''Osaka'' ''0901234'')) =
     orderMap \<lparr>orderMap = [], processedLinesCount = 0\<rparr>"
    by (rule t[THEN conjunct1, OF disjI2, OF disjI1])
  from b have 3: "orderMap (processRow tikTokColumnMap exHeader \<lparr>orderMap = [], processedLinesCount = 0\<rparr>
     (exRow ''  '' ''Box*4'' (CNum 1) ''Sato'' ''Osaka'' ''09012345678'')) =
     orderMap \<lparr>orderMap = [], processedLinesCount = 0\<rparr>"
    by (rule t[THEN conjunct1, OF disjI2, OF disjI2])
  from 1 have 1: "orderMap (processRows tikTokColumnMap exHeader
     [exRow ''1001'' ''Box*4'' (CNum 1) ''Tanaka'' ''Tokyo'' ''09012345678'',
      exRow ''1002'' ''Box*4'' (CNum 0) ''Sato'' ''Osaka'' ''09012345678'',
      exRow ''1003'' ''Box*4'' (CNum 2) ''Tanaka'' ''Tokyo'' ''09012345678'']) =
   orderMap (processRows tikTokColumnMap exHeader
     [exRow ''1001'' ''Box*4'' (CNum 1) ''Tanaka'' ''Tokyo'' ''09012345678'',
      exRow ''1003'' ''Box*4'' (CNum 2) ''Tanaka'' ''Tokyo'' ''09012345678''])"
    by (simp only: append_Cons append_Nil)
  from 2 have 2: "orderMap (processRow tikTokColumnMap exHeader \<lparr>orderMap = [], processedLinesCount = 0\<rparr>
     (exRow ''1002'' ''Box*4'' (CNum 1) ''Sato'' ''Osaka'' ''0901234'')) = []"
    by (simp only: LoopState.select_convs)
  from 3 have 3: "orderMap (processRow tikTokColumnMap exHeader \<lparr>orderMap = [], processedLinesCount = 0\<rparr>
     (exRow ''  '' ''Box*4'' (CNum 1) ''Sato'' ''Osaka'' ''09012345678'')) = []"
    by (simp only: LoopState.select_convs)
  show ?thesis by (intro conjI q 1 p 2 b 3)
qed

section \<open>Order-id sets\<close>

lemma mapHas_iff: "mapHas m k \<longleftrightarrow> map_of m k \<noteq> None"
  by (simp add: mapHas_def map_of_eq_None_iff)

lemma distinct_setAdd: "distinct s \<Longrightarrow> distinct (setAdd s x)"
  by (simp add: setAdd_def)

lemma map_of_update:
  "map_of (map (\<lambda>(k, e). if k = key then (k, f e) else (k, e)) m) key =
     map_option f (map_of m key)"
  by (induction m) auto

lemma mergeInto_existing:
  assumes "map_of m (mergeKeyOf cm row) = Some g"
  shows "map_of (mergeInto m cm row q) (mergeKeyOf cm row) =
     Some (g\<lparr>orderIds := setAdd (orderIds g) (trim (toStr (getCell row (col cm OrderId)))),
             products := products g @ [productOf row q]\<rparr>)"
proof -
  from assms have "mapHas m (mergeKeyOf cm row)" by (simp add: mapHas_iff)
  then show ?thesis
    unfolding mergeInto_def Let_def by (simp add: map_of_update assms)
qed

lemma mergeInto_distinct:
  assumes "list_all (\<lambda>kv. distinct (orderIds (snd kv))) m"
  shows "list_all (\<lambda>kv. distinct (orderIds (snd kv))) (mergeInto m cm row q)"
proof (cases "mapHas m (mergeKeyOf cm row)")
  case False
  then show ?thesis using assms by (simp add: mergeInto_def Let_def)
next
  case True
  then show ?thesis using assms
    by (auto simp: mergeInto_def Let_def list_all_iff distinct_setAdd)
qed

lemma processRows_distinct:
  "list_all (\<lambda>kv. distinct (orderIds (snd kv))) (orderMap (processRows cm hdr rows))"
proof (induction rows rule: rev_induct)
  case Nil
  show ?case by (simp add: processRows_def)
next
  case (snoc r rows)
  have "processRows cm hdr (rows @ [r]) = processRow cm hdr (processRows cm hdr rows) r"
    by (simp add: processRows_def)
  then show ?case
    using snoc.IH by (simp add: orderMap_processRow mergeInto_distinct)
qed

text \<open>
  Claim C10. After any sequence of data rows every group's order ids are duplicate-free.
  A row merged into an existing group whose order-id set already holds the row's trimmed
  order id leaves the set as it is and appends one product description. The same data row
  twice gives one group with one order id and two product descriptions, and the log of
  that run holds the warning summary but no merge entry.
\<close>

theorem orderIds_duplicate_free:
  "list_all (\<lambda>kv. distinct (orderIds (snd kv))) (orderMap (processRows cm hdr rows)) \<and>
   (map_of m (mergeKeyOf cm row) = Some g \<and>
    trim (toStr (getCell row (col cm OrderId))) \<in> set (orderIds g) \<longrightarrow>
      map_of (mergeInto m cm row q) (mergeKeyOf cm row) =
        Some (g\<lparr>products := products g @ [productOf row q]\<rparr>)) \<and>
   map (\<lambda>kv. (orderIds (snd kv), products (snd kv)))
     (orderMap (runLoop
        [exHeader, exRow ''1001'' ''Box*4'' (CNum 1) ''Tanaka'' ''Tokyo'' ''09012345678'',
         exRow ''1001'' ''Box*4'' (CNum 1) ''Tanaka'' ''Tokyo'' ''09012345678''])) =
     [([''1001''], [''Box*4'', ''Box*4''])] \<and>
   map logType
     (logs (processFile initState
        [exHeader, exRow ''1001'' ''Box*4'' (CNum 1) ''Tanaka'' ''Tokyo'' ''09012345678'',
         exRow ''1001'' ''Box*4'' (CNum 1) ''Tanaka'' ''Tokyo'' ''09012345678''])) =
     [Warning, Info]"
proof (intro conjI impI)
  show "list_all (\<lambda>kv. distinct (orderIds (snd kv))) (orderMap (processRows cm hdr rows))"
    by (rule processRows_distinct)
next
  assume a: "map_of m (mergeKeyOf cm row) = Some g \<and>
    trim (toStr (getCell row (col cm OrderId))) \<in> set (orderIds g)"
  then have "setAdd (orderIds g) (trim (toStr (getCell row (col cm OrderId)))) = orderIds g"
    by (simp add: setAdd_def)
  with a show "map_of (mergeInto m cm row q) (mergeKeyOf cm row) =
        Some (g\<lparr>products := products g @ [productOf row q]\<rparr>)"
    by (simp add: mergeInto_existing)
qed code_simp+

text \<open>
  A group that holds the order id 1001 receives a second row with that order id.
\<close>

theorem orderIds_duplicate_free_witness:
  "map_option (\<lambda>g. (orderIds g, products g))
     (map_of
        (mergeInto
           (orderMap (processRows tikTokColumnMap exHeader
              [exRow ''1001'' ''Box*4'' (CNum 1) ''Tanaka'' ''Tokyo'' ''09012345678'']))
           tikTokColumnMap
           (exRow ''1001'' ''Box*4'' (CNum 3) ''Tanaka'' ''Tokyo'' ''09012345678'') 3)
        ''09012345678|123-4567|Tokyo|Tanaka'') =
   Some ([''1001''], [''Box*4'', ''Box*12''])"
proof -
  let ?row = "exRow ''1001'' ''Box*4'' (CNum 3) ''Tanaka'' ''Tokyo'' ''09012345678''"
  let ?g = "\<lparr>id_key = ''09012345678|123-4567|Tokyo|Tanaka'', orderIds = [''1001''],
             receiver = \<lparr>name = ''Tanaka'', phone = ''09012345678'', zip_r = ''123-4567'',
                         address = ''Tokyo''\<rparr>,
             products = [''Box*4'']\<rparr>"
  let ?m = "orderMap (processRows tikTokColumnMap exHeader
              [exRow ''1001'' ''Box*4'' (CNum 1) ''Tanaka'' ''Tokyo'' ''09012345678''])"
  have k: "mergeKeyOf tikTokColumnMap ?row = ''09012345678|123-4567|Tokyo|Tanaka''"
    by code_simp
  have m: "?m = [(''09012345678|123-4567|Tokyo|Tanaka'', ?g)]"
    by code_simp
  have i: "trim (toStr (getCell ?row (col tikTokColumnMap OrderId))) = ''1001''"
    by code_simp
  have p: "productOf ?row 3 = ''Box*12''"
    by code_simp
  have h: "map_of ?m (mergeKeyOf tikTokColumnMap ?row) = Some ?g \<and>
    trim (toStr (getCell ?row (col tikTokColumnMap OrderId))) \<in> set (orderIds ?g)"
    unfolding k m i by simp
  from orderIds_duplicate_free[of tikTokColumnMap _ _ ?m ?row ?g 3,
      THEN conjunct2, THEN conjunct1, rule_format, OF h]
  have "map_of (mergeInto ?m tikTokColumnMap ?row 3) (mergeKeyOf tikTokColumnMap ?row) =
        Some (?g\<lparr>products := products ?g @ [productOf ?row 3]\<rparr>)" .
  then show ?thesis
    unfolding k p by simp
qed

section \<open>The run as a whole\<close>

lemma foldl_emitGroup_logs:
  "logsToAppend (foldl emitGroup g m) =
     logsToAppend g @ map mergeLog (filter (\<lambda>grp. length (orderIds grp) > 1) (map snd m))"
  by (induction m rule: rev_induct) (simp_all add: emitGroup_def Let_def)

lemma generateOutput_logs:
  "logsToAppend (generateOutput m) =
     map mergeLog (filter (\<lambda>grp. length (orderIds grp) > 1) (map snd m))"
  by (simp add: generateOutput_def foldl_emitGroup_logs)

lemma errorCount_merge_logs: "errorCount (map mergeLog gs) = 0"
  by (induction gs) (simp_all add: errorCount_def mergeLog_def)

lemma errorCount_append: "errorCount (xs @ ys) = errorCount xs + errorCount ys"
  by (simp add: errorCount_def)

lemma errorCount_Cons:
  "errorCount (e # es) = (if logType e = Error then 1 else 0) + errorCount es"
  by (simp add: errorCount_def)

lemma errorCount_Nil: "errorCount [] = 0"
  by (simp add: errorCount_def)

lemmas errorCount_simps =
  errorCount_merge_logs errorCount_append errorCount_Cons errorCount_Nil

text \<open>
  The check of \<^verbatim>\<open>processFile\<close> for missing columns finds one exactly when one of the four
  required semantic columns is unresolved in the column map.
\<close>

lemma missingColumns_iff:
  "length (missingColumns cm) > 0 \<longleftrightarrow>
     unresolved cm Phone \<or> unresolved cm Zip \<or> unresolved cm Name \<or> unresolved cm OrderId"
  by (auto simp: missingColumns_def required_def unresolved_def split: option.splits)

lemma fatal_checks:
  "fatal rows \<longleftrightarrow>
     length rows < 2 \<or> findHeaderRow rows = - 1 \<or>
     length (missingColumns (buildColumnMap (headerOf rows))) > 0 \<or>
     length (orderMap (runLoop rows)) = 0"
  unfolding fatal_def missingColumns_iff by blast

text \<open>
  Claim C4. A run that starts without a workbook ends without one and with exactly one
  log entry of type error if and only if the input has fewer than 2 rows, or no header row
  is found, or one of the semantic columns phone, zip, name and orderId is unresolved in
  the column map, or the loop leaves no shipment group. Every other run sets the workbook
  built from the output rows and logs no error. (When no group is left, the summary entry
  stands before the error entry.)
\<close>

theorem fatal_iff_abort:
  assumes "processedWorkbook s = None"
  shows "(fatal rows \<longleftrightarrow>
           processedWorkbook (processFile s rows) = None \<and>
           errorCount (logs (processFile s rows)) = 1) \<and>
         (\<not> fatal rows \<longrightarrow>
           processedWorkbook (processFile s rows) =
             Some (wsData (outputRows (generateOutput (orderMap (runLoop rows))))) \<and>
           errorCount (logs (processFile s rows)) = 0)"
  using assms
  by (simp add: processFile_def tryBlock_def Let_def fatal_checks runLoop_def headerOf_def
      dataRowsOf_def generateOutput_logs generateOutput_rows warningLog_def infoLog_def
      noOrdersLog_def completeLog_def errorCount_simps)

text \<open>
  A run on the header row alone is fatal; a run on a sheet whose header names only the
  order id and the phone is fatal, since zip and name are unresolved; a run on the header
  row and one order is not fatal.
\<close>

theorem fatal_iff_abort_witness:
  "processedWorkbook (processFile initState [exHeader]) = None \<and>
   errorCount (logs (processFile initState [exHeader])) = 1 \<and>
   unresolved
     (buildColumnMap (headerOf
        [[(''A'', CStr ''Order ID''), (''B'', CStr ''Phone'')],
         [(''A'', CStr ''1001''), (''B'', CStr ''09012345678'')]])) Zip \<and>
   processedWorkbook (processFile initState
     [[(''A'', CStr ''Order ID''), (''B'', CStr ''Phone'')],
      [(''A'', CStr ''1001''), (''B'', CStr ''09012345678'')]]) = None \<and>
   errorCount (logs (processFile initState
     [[(''A'', CStr ''Order ID''), (''B'', CStr ''Phone'')],
      [(''A'', CStr ''1001''), (''B'', CStr ''09012345678'')]])) = 1 \<and>
   errorCount (logs (processFile initState
     [exHeader, exRow ''1001'' ''Box*4'' (CNum 1) ''Tanaka'' ''Tokyo'' ''09012345678''])) = 0"
proof -
  let ?G = "[[(''A'', CStr ''Order ID''), (''B'', CStr ''Phone'')],
             [(''A'', CStr ''1001''), (''B'', CStr ''09012345678'')]]"
  have n: "processedWorkbook initState = None" by (simp add: initState_def)
  have f: "fatal [exHeader]" by (simp add: fatal_def)
  have u: "unresolved (buildColumnMap (headerOf ?G)) Zip" by code_simp
  then have fu: "fatal ?G" by (simp only: fatal_def simp_thms)
  have g: "\<not> fatal [exHeader, exRow ''1001'' ''Box*4'' (CNum 1) ''Tanaka'' ''Tokyo'' ''09012345678'']"
    by code_simp
  from fatal_iff_abort[OF n, of "[exHeader]", THEN conjunct1, THEN iffD1, OF f]
  have 1: "processedWorkbook (processFile initState [exHeader]) = None \<and>
           errorCount (logs (processFile initState [exHeader])) = 1" .
  from fatal_iff_abort[OF n, of ?G, THEN conjunct1, THEN iffD1, OF fu]
  have 3: "processedWorkbook (processFile initState ?G) = None \<and>
           errorCount (logs (processFile initState ?G)) = 1" .
  from fatal_iff_abort[OF n, THEN conjunct2, rule_format, OF g]
  have 2: "errorCount (logs (processFile initState
     [exHeader, exRow ''1001'' ''Box*4'' (CNum 1) ''Tanaka'' ''Tokyo'' ''09012345678''])) = 0"
    by (rule conjunct2)
  show ?thesis
    by (intro conjI 1[THEN conjunct1] 1[THEN conjunct2] u 3[THEN conjunct1] 3[THEN conjunct2] 2)
qed

text \<open>
  The log of the run with the unresolved columns.
\<close>

lemma missing_columns_log:
  "logs (processFile initState
     [[(''A'', CStr ''Order ID''), (''B'', CStr ''Phone'')],
      [(''A'', CStr ''1001''), (''B'', CStr ''09012345678'')]]) =
   [\<lparr>logType = Error,
     message = ''Processing failed: Missing required columns: zip, name. Format detected: Generic''\<rparr>]"
  by code_simp

text \<open>
  Claim C9. The log and the merge flag after a run depend on the rows alone, not on the
  state the run starts from; two runs that start with the same workbook end with the same
  workbook; and a second run on the same rows, started from the state the first run
  left, leaves that state as it is.
\<close>

theorem rerun_same_result:
  "logs (processFile s rows) = logs (processFile s' rows) \<and>
   hasMerges (processFile s rows) = hasMerges (processFile s' rows) \<and>
   (processedWorkbook s = processedWorkbook s' \<longrightarrow>
      processedWorkbook (processFile s rows) = processedWorkbook (processFile s' rows)) \<and>
   processFile (processFile s rows) rows = processFile s rows"
  by (simp add: processFile_def tryBlock_def Let_def)

text \<open>
  Two runs on the same rows, one from the initial state and one from a state with an old
  log, end with the same workbook.
\<close>

theorem rerun_same_result_witness:
  "processedWorkbook (processFile initState
      [exHeader, exRow ''1001'' ''Box*4'' (CNum 1) ''Tanaka'' ''Tokyo'' ''09012345678'']) =
   processedWorkbook (processFile (initState\<lparr>logs := [completeLog], hasMerges := True\<rparr>)
      [exHeader, exRow ''1001'' ''Box*4'' (CNum 1) ''Tanaka'' ''Tokyo'' ''09012345678''])"
proof -
  have "processedWorkbook initState =
        processedWorkbook (initState\<lparr>logs := [completeLog], hasMerges := True\<rparr>)"
    by simp
  from rerun_same_result[THEN conjunct2, THEN conjunct2, THEN conjunct1, rule_format, OF this]
  show ?thesis .
qed

section \<open>The summary log entry\<close>

lemma processRows_count:
  "processedLinesCount (processRows cm hdr rows) = length (filter (counted cm hdr) rows)"
proof (induction rows rule: rev_induct)
  case Nil
  show ?case by (simp add: processRows_def)
next
  case (snoc r rows)
  have "processRows cm hdr (rows @ [r]) = processRow cm hdr (processRows cm hdr rows) r"
    by (simp add: processRows_def)
  then show ?case by (simp add: count_processRow snoc.IH)
qed

lemma logs_of_run:
  assumes "\<not> fatal rows"
  shows "logs (processFile s rows) =
     (if processedLinesCount (runLoop rows) > length (orderMap (runLoop rows))
      then warningLog (processedLinesCount (runLoop rows)) (length (orderMap (runLoop rows))) #
           map mergeLog (filter (\<lambda>grp. length (orderIds grp) > 1)
             (map snd (orderMap (runLoop rows)))) @ [completeLog]
      else [infoLog (processedLinesCount (runLoop rows)), completeLog])"
  using assms
  by (simp add: processFile_def tryBlock_def Let_def fatal_checks runLoop_def headerOf_def
      dataRowsOf_def generateOutput_logs generateOutput_rows)

text \<open>
  Claim C3, as amended. In a run that produces at least one shipment group the log is
  one summary entry, then the merge entries, then the completion entry: the summary entry
  is the first entry of the log and stands before every merge entry. Its type is warning
  or info. When no row that passes the first four skip conditions has a quantity that is
  not greater than 0, the type is warning if the number of validated rows exceeds the
  number of groups, and info otherwise.
\<close>

theorem summary_log_first:
  assumes "\<not> fatal rows"
  shows "\<exists>summary merges.
     logs (processFile s rows) = summary # merges @ [completeLog] \<and>
     list_all (\<lambda>e. logType e = Merge) merges \<and>
     (logType summary = Warning \<or> logType summary = Info) \<and>
     (list_all (\<lambda>r. counted (buildColumnMap (headerOf rows)) (headerOf rows) r \<longrightarrow>
                   \<not> quantityNotPositive r) (dataRowsOf rows) \<longrightarrow>
      logType summary =
        (if length (filter (validated (buildColumnMap (headerOf rows)) (headerOf rows))
               (dataRowsOf rows)) > length (orderMap (runLoop rows))
         then Warning else Info))"
proof -
  let ?cm = "buildColumnMap (headerOf rows)"
  let ?hdr = "headerOf rows"
  let ?c = "processedLinesCount (runLoop rows)"
  let ?n = "length (orderMap (runLoop rows))"
  let ?ms = "map mergeLog (filter (\<lambda>grp. length (orderIds grp) > 1)
             (map snd (orderMap (runLoop rows))))"
  have c: "?c = length (filter (counted ?cm ?hdr) (dataRowsOf rows))"
    by (simp add: runLoop_def processRows_count)
  have v: "list_all (\<lambda>r. counted ?cm ?hdr r \<longrightarrow> \<not> quantityNotPositive r) (dataRowsOf rows) \<Longrightarrow>
      filter (validated ?cm ?hdr) (dataRowsOf rows) = filter (counted ?cm ?hdr) (dataRowsOf rows)"
    by (rule filter_cong) (auto simp: validated_def list_all_iff)
  have m: "list_all (\<lambda>e. logType e = Merge) ?ms"
    by (simp add: list_all_iff mergeLog_def)
  show ?thesis
  proof (cases "?c > ?n")
    case True
    then have "logs (processFile s rows) = warningLog ?c ?n # ?ms @ [completeLog]"
      using logs_of_run[OF assms, of s] by simp
    moreover have "logType (warningLog ?c ?n) = Warning" by (simp add: warningLog_def)
    ultimately show ?thesis using m True c v by (intro exI[of _ "warningLog ?c ?n"] exI[of _ ?ms]) simp
  next
    case False
    then have "logs (processFile s rows) = infoLog ?c # [] @ [completeLog]"
      using logs_of_run[OF assms, of s] by simp
    moreover have "logType (infoLog ?c) = Info" by (simp add: infoLog_def)
    ultimately show ?thesis using False c v by (intro exI[of _ "infoLog ?c"] exI[of _ "[]"]) simp
  qed
qed

text \<open>
  Two orders for the same recipient: the run is not fatal, every counted row has a
  positive quantity, and 2 validated rows exceed 1 group.
\<close>

theorem summary_log_first_witness:
  "\<exists>summary merges.
     logs (processFile initState
       [exHeader, exRow ''1001'' ''Box*4'' (CNum 1) ''Tanaka'' ''Tokyo'' ''09012345678'',
        exRow ''1002'' ''Box*4'' (CNum 2) ''Tanaka'' ''Tokyo'' ''09012345678'']) =
       summary # merges @ [completeLog] \<and>
     list_all (\<lambda>e. logType e = Merge) merges \<and>
     logType summary = Warning"
proof -
  let ?X = "[exHeader, exRow ''1001'' ''Box*4'' (CNum 1) ''Tanaka'' ''Tokyo'' ''09012345678'',
        exRow ''1002'' ''Box*4'' (CNum 2) ''Tanaka'' ''Tokyo'' ''09012345678'']"
  have nf: "\<not> fatal ?X" by code_simp
  have ns: "list_all (\<lambda>r. counted (buildColumnMap (headerOf ?X)) (headerOf ?X) r \<longrightarrow>
                   \<not> quantityNotPositive r) (dataRowsOf ?X)"
    by code_simp
  have gt: "length (filter (validated (buildColumnMap (headerOf ?X)) (headerOf ?X))
               (dataRowsOf ?X)) > length (orderMap (runLoop ?X))"
    by code_simp
  from summary_log_first[OF nf, of initState] obtain summary merges where
    l: "logs (processFile initState ?X) = summary # merges @ [completeLog]" and
    m: "list_all (\<lambda>e. logType e = Merge) merges" and
    t: "list_all (\<lambda>r. counted (buildColumnMap (headerOf ?X)) (headerOf ?X) r \<longrightarrow>
                   \<not> quantityNotPositive r) (dataRowsOf ?X) \<longrightarrow>
      logType summary =
        (if length (filter (validated (buildColumnMap (headerOf ?X)) (headerOf ?X))
               (dataRowsOf ?X)) > length (orderMap (runLoop ?X))
         then Warning else Info)"
    by blast
  from t ns have "logType summary =
        (if length (filter (validated (buildColumnMap (headerOf ?X)) (headerOf ?X))
               (dataRowsOf ?X)) > length (orderMap (runLoop ?X))
         then Warning else Info)"
    by (rule mp)
  with gt have "logType summary = Warning" by (simp only: if_True)
  with l m show ?thesis by blast
qed

text \<open>
  Claim C3 as stated fails in two ways. In the run on two orders for the same recipient
  the log is the warning summary, then the merge entry, then the completion entry: the
  summary stands before the merge entry, not after it. In the run on one order and one
  row for another recipient with the quantity 0, one row is validated and there is one
  group, yet the summary is a warning: the row with the quantity 0 is counted.
\<close>

theorem summary_log_not_last:
  "map logType
     (logs (processFile initState
       [exHeader, exRow ''1001'' ''Box*4'' (CNum 1) ''Tanaka'' ''Tokyo'' ''09012345678'',
        exRow ''1002'' ''Box*4'' (CNum 2) ''Tanaka'' ''Tokyo'' ''09012345678''])) =
     [Warning, Merge, Info] \<and>
   length (filter
     (validated
        (buildColumnMap (headerOf
          [exHeader, exRow ''1001'' ''Box*4'' (CNum 1) ''Tanaka'' ''Tokyo'' ''09012345678'',
           exRow ''1002'' ''Box*4'' (CNum 0) ''Sato'' ''Osaka'' ''09012345678'']))
        (headerOf
          [exHeader, exRow ''1001'' ''Box*4'' (CNum 1) ''Tanaka'' ''Tokyo'' ''09012345678'',
           exRow ''1002'' ''Box*4'' (CNum 0) ''Sato'' ''Osaka'' ''09012345678'']))
     (dataRowsOf
        [exHeader, exRow ''1001'' ''Box*4'' (CNum 1) ''Tanaka'' ''Tokyo'' ''09012345678'',
         exRow ''1002'' ''Box*4'' (CNum 0) ''Sato'' ''Osaka'' ''09012345678''])) = 1 \<and>
   length (orderMap (runLoop
     [exHeader, exRow ''1001'' ''Box*4'' (CNum 1) ''Tanaka'' ''Tokyo'' ''09012345678'',
      exRow ''1002'' ''Box*4'' (CNum 0) ''Sato'' ''Osaka'' ''09012345678''])) = 1 \<and>
   map logType
     (logs (processFile initState
       [exHeader, exRow ''1001'' ''Box*4'' (CNum 1) ''Tanaka'' ''Tokyo'' ''09012345678'',
        exRow ''1002'' ''Box*4'' (CNum 0) ''Sato'' ''Osaka'' ''09012345678''])) =
     [Warning, Info]"
  by code_simp

section \<open>Grouping by merge key\<close>

lemma map_of_update_any:
  "map_of (map (\<lambda>(k', e). if k' = key then (k', f e) else (k', e)) m) k =
     (if k = key then map_option f (map_of m key) else map_of m k)"
  by (induction m) auto

lemma mergeInto_other_key:
  "k \<noteq> mergeKeyOf cm row \<Longrightarrow> map_of (mergeInto m cm row q) k = map_of m k"
  by (auto simp: mergeInto_def Let_def map_of_update_any map_add_def split: option.splits)

lemma mergeInto_new_key:
  assumes "map_of m (mergeKeyOf cm row) = None"
  shows "map_option (\<lambda>g. (set (orderIds g), products g))
           (map_of (mergeInto m cm row q) (mergeKeyOf cm row)) =
         Some ({trim (toStr (getCell row (col cm OrderId)))}, [productOf row q])"
proof -
  from assms have "\<not> mapHas m (mergeKeyOf cm row)" by (simp add: mapHas_iff)
  then show ?thesis
    using assms by (simp add: mergeInto_def Let_def map_add_def)
qed

lemma set_setAdd: "set (setAdd s x) = insert x (set s)"
  by (auto simp: setAdd_def)

text \<open>
  The group stored under a key after the loop: there is one exactly when some validated
  row has that merge key; its order-id set holds the trimmed order ids of the validated
  rows with that key, and its products are their product descriptions in row order.
\<close>

lemma groups_by_merge_key:
  "map_option (\<lambda>g. (set (orderIds g), products g))
     (map_of (orderMap (processRows cm hdr rows)) k) =
   (if filter (\<lambda>r. validated cm hdr r \<and> mergeKeyOf cm r = k) rows = [] then None
    else Some
      (set (map (\<lambda>r. trim (toStr (getCell r (col cm OrderId))))
              (filter (\<lambda>r. validated cm hdr r \<and> mergeKeyOf cm r = k) rows)),
       map (\<lambda>r. productOf r (the (quantityOf r)))
         (filter (\<lambda>r. validated cm hdr r \<and> mergeKeyOf cm r = k) rows)))"
proof (induction rows rule: rev_induct)
  case Nil
  show ?case by (simp add: processRows_def)
next
  case (snoc r rows)
  let ?prev = "orderMap (processRows cm hdr rows)"
  let ?rs = "filter (\<lambda>r. validated cm hdr r \<and> mergeKeyOf cm r = k) rows"
  have step: "orderMap (processRows cm hdr (rows @ [r])) =
      (if validated cm hdr r then mergeInto ?prev cm r (the (quantityOf r)) else ?prev)"
    by (simp add: processRows_def orderMap_processRow)
  show ?case
  proof (cases "validated cm hdr r \<and> mergeKeyOf cm r = k")
    case False
    then have "map_of (orderMap (processRows cm hdr (rows @ [r]))) k = map_of ?prev k"
      unfolding step by (auto simp: mergeInto_other_key)
    with False snoc.IH show ?thesis by simp
  next
    case True
    then have v: "validated cm hdr r" and key: "mergeKeyOf cm r = k" by simp_all
    show ?thesis
    proof (cases "?rs = []")
      case True
      with snoc.IH have "map_of ?prev (mergeKeyOf cm r) = None" by (simp add: key)
      from mergeInto_new_key[OF this] True v key show ?thesis
        unfolding step by simp
    next
      case False
      with snoc.IH obtain g where g: "map_of ?prev (mergeKeyOf cm r) = Some g"
        and ids: "set (orderIds g) =
                  set (map (\<lambda>r. trim (toStr (getCell r (col cm OrderId)))) ?rs)"
        and ps: "products g = map (\<lambda>r. productOf r (the (quantityOf r))) ?rs"
        by (auto simp: key)
      from mergeInto_existing[OF g] ids ps v key show ?thesis
        unfolding step by (simp add: set_setAdd)
    qed
  qed
qed

text \<open>
  Claim C1 fails on the code: the merge key joins the four fields with \<open>|\<close> and does not
  escape a \<open>|\<close> inside a field. The two rows below differ in their full address
  (\<open>Tokyo|X\<close> and \<open>Tokyo\<close>) and in their name (\<open>Y\<close> and \<open>X|Y\<close>), both are validated,
  and the run puts them in one group, shipped to the first row's recipient.
\<close>

theorem mergeKey_collision:
  "fullAddressOf tikTokColumnMap
     (exRow ''1001'' ''Box*4'' (CNum 1) ''Y'' ''Tokyo|X'' ''09012345678'') = ''Tokyo|X'' \<and>
   fullAddressOf tikTokColumnMap
     (exRow ''1002'' ''Box*4'' (CNum 2) ''X|Y'' ''Tokyo'' ''09012345678'') = ''Tokyo'' \<and>
   mergeKeyOf tikTokColumnMap
     (exRow ''1001'' ''Box*4'' (CNum 1) ''Y'' ''Tokyo|X'' ''09012345678'') =
   mergeKeyOf tikTokColumnMap
     (exRow ''1002'' ''Box*4'' (CNum 2) ''X|Y'' ''Tokyo'' ''09012345678'') \<and>
   validated tikTokColumnMap exHeader
     (exRow ''1001'' ''Box*4'' (CNum 1) ''Y'' ''Tokyo|X'' ''09012345678'') \<and>
   validated tikTokColumnMap exHeader
     (exRow ''1002'' ''Box*4'' (CNum 2) ''X|Y'' ''Tokyo'' ''09012345678'') \<and>
   map (\<lambda>kv. (name (receiver (snd kv)), address (receiver (snd kv)), orderIds (snd kv),
              products (snd kv)))
     (orderMap (runLoop
        [exHeader, exRow ''1001'' ''Box*4'' (CNum 1) ''Y'' ''Tokyo|X'' ''09012345678'',
         exRow ''1002'' ''Box*4'' (CNum 2) ''X|Y'' ''Tokyo'' ''09012345678''])) =
     [(''Y'', ''Tokyo|X'', [''1001'', ''1002''], [''Box*4'', ''Box*8''])]"
  by code_simp

section \<open>Consistency of the model\<close>

text \<open>
  On a non-empty run of digits \<open>parseInt\<close> is \<open>digitsValue\<close>, which is how
  \<open>calculateProduct\<close> reads the pack size.
\<close>

lemma whiteSpace_no_digit: "list_all (\<lambda>p. p \<noteq> [] \<and> \<not> isDigit (hd p)) whiteSpace"
  by code_simp

lemma startsWithAny_digit:
  assumes "isDigit c"
  shows "startsWithAny whiteSpace (c # cs) = None"
proof -
  have "\<not> (p \<noteq> [] \<and> take (length p) (c # cs) = p)" if "p \<in> set whiteSpace" for p
  proof
    assume a: "p \<noteq> [] \<and> take (length p) (c # cs) = p"
    then obtain x xs where p: "p = x # xs" by (cases p) auto
    with a have "x = c" by simp
    moreover from that whiteSpace_no_digit have "\<not> isDigit (hd p)"
      by (simp add: list_all_iff)
    ultimately show False using assms p by simp
  qed
  then show ?thesis
    by (simp add: startsWithAny_def find_None_iff)
qed

lemma parseInt_digits:
  assumes "ds \<noteq> []" and "list_all isDigit ds"
  shows "parseInt ds = Some (digitsValue ds)"
proof -
  from assms obtain c cs where ds: "ds = c # cs" and c: "isDigit c"
    by (cases ds) auto
  from c have t: "trimStart ds = ds"
    unfolding ds trimStart_def by (subst stripLeading.simps) (simp add: startsWithAny_digit)
  from c have s: "c \<noteq> CHR ''-''" "c \<noteq> CHR ''+''"
    by (auto simp: isDigit_def)
  from assms(2) have w: "takeWhile isDigit ds = ds"
    by (simp add: list_all_iff)
  show ?thesis
    unfolding parseInt_def Let_def t using s w by (simp add: ds)
qed

text \<open>
  A header index that is not \<open>-1\<close> is the index of one of the first 20 rows, so the read
  \<open>jsonData[headerIndex]\<close> is in range.
\<close>

lemma findHeaderRow_range:
  assumes "findHeaderRow rows \<noteq> - 1"
  shows "0 \<le> findHeaderRow rows \<and> nat (findHeaderRow rows) < min (length rows) 20"
proof (cases "scanFrom isFixedHeader rows 0")
  case (Some i)
  then have "i < min (length rows) 20" by (simp add: scanFrom_Some_iff)
  with Some show ?thesis by (simp add: findHeaderRow_def)
next
  case None
  with assms obtain i where i: "scanFrom isKeywordHeader rows 0 = Some i"
    by (auto simp: findHeaderRow_def split: option.splits)
  then have "i < min (length rows) 20" by (simp add: scanFrom_Some_iff)
  with None i show ?thesis by (simp add: findHeaderRow_def)
qed

end
